theory Spec2Isabelle
  imports
    Complex_Main
    "HOL-Library.Word"
    "HOL-Library.Char_ord"
    "HOL-Library.List_Lexorder"
    "HOL-Library.Multiset"
begin

section \<open>Python strings\<close>

text \<open>
  A Python \<open>str\<close> is modelled as a \<open>string\<close> whose characters are the code points
  0..255. \<open>str.lower\<close> maps \<open>A\<close>..\<open>Z\<close> and the Latin-1 capitals (192..222 except the
  multiplication sign 215) to the letter 32 places up, and leaves every other code point
  of that range alone.
\<close>

definition lower_char :: "char \<Rightarrow> char" where
  "lower_char c =
     (let n = (of_char c :: nat)
      in if (65 \<le> n \<and> n \<le> 90) \<or> (192 \<le> n \<and> n \<le> 222 \<and> n \<noteq> 215)
         then char_of (n + 32) else c)"

definition lower :: "string \<Rightarrow> string" where
  "lower s = map lower_char s"

section \<open>Severity table (crew\_blockchain\_integration.py)\<close>

definition SEVERITY_SAFE :: nat where "SEVERITY_SAFE = 0"
definition SEVERITY_WARNING :: nat where "SEVERITY_WARNING = 1"
definition SEVERITY_CRITICAL :: nat where "SEVERITY_CRITICAL = 2"

definition DECISION_TYPE_CREW_FORMATION :: nat where "DECISION_TYPE_CREW_FORMATION = 0"
definition DECISION_TYPE_ANOMALY_DETECTION :: nat where "DECISION_TYPE_ANOMALY_DETECTION = 1"
definition DECISION_TYPE_ACTION_EXECUTION :: nat where "DECISION_TYPE_ACTION_EXECUTION = 2"

definition severity_map :: "(string \<times> nat) list" where
  "severity_map =
     [(''safe'', SEVERITY_SAFE),
      (''normal'', SEVERITY_SAFE),
      (''warning'', SEVERITY_WARNING),
      (''critical'', SEVERITY_CRITICAL),
      (''emergency'', SEVERITY_CRITICAL)]"

text \<open>\<open>_map_severity\<close>: \<open>severity_map.get(severity_str.lower(), SEVERITY_WARNING)\<close>.\<close>

definition map_severity :: "string \<Rightarrow> nat" where
  "map_severity severity_str =
     (case map_of severity_map (lower severity_str) of
        Some v \<Rightarrow> v
      | None \<Rightarrow> SEVERITY_WARNING)"

section \<open>Consensus evaluator\<close>

datatype verdict = PASS | FAIL | PENDING

text \<open>
  The votes of a consensus request: a mapping from voter to approval, kept as an
  association list read through \<open>map_of\<close>. \<open>count_votes b votes\<close> is the number of voters
  mapped to \<open>b\<close>.
\<close>

definition count_votes :: "bool \<Rightarrow> (string \<times> bool) list \<Rightarrow> nat" where
  "count_votes b votes =
     length (filter (\<lambda>v. map_of votes v = Some b) (remdups (map fst votes)))"

text \<open>
  Modelled from the spec: the consensus evaluator \<open>evaluate\<close> is not among the Python
  sources (the client only reads \<open>hasConsensusPassed\<close> from the ConsensusValidator
  contract). The definition follows section 4.6: PASS when
  \<open>count(approved=true) / total_eligible * 100 >= consensus_percentage\<close> and
  \<open>total_eligible > 0\<close>; FAIL when
  \<open>count(approved=false) / total_eligible * 100 > 100 - consensus_percentage\<close>; otherwise
  PENDING; and section 4.5 for the empty denominator, which the evaluator "must treat as
  FAIL" instead of dividing by it.
\<close>

definition evaluate :: "(string \<times> bool) list \<Rightarrow> int \<Rightarrow> int \<Rightarrow> verdict" where
  "evaluate votes total_eligible consensus_percentage =
     (if total_eligible > 0 \<and>
         real (count_votes True votes) / real_of_int total_eligible * 100
           \<ge> real_of_int consensus_percentage
      then PASS
      else if total_eligible = 0 then FAIL
      else if real (count_votes False votes) / real_of_int total_eligible * 100
                > 100 - real_of_int consensus_percentage
      then FAIL
      else PENDING)"

section \<open>JSON values and \<open>json.dumps(..., sort_keys=True)\<close>\<close>

text \<open>
  The values \<open>json.dumps\<close> serialises: \<open>None\<close>, booleans, integers, floats (given by
  their \<open>repr\<close>), strings, lists, and dictionaries with string keys, kept as the list of
  their items in insertion order (the keys of a dictionary are distinct).
\<close>

datatype json =
    JNull
  | JBool bool
  | JInt int
  | JFloat string
  | JStr string
  | JList "json list"
  | JDict "(string \<times> json) list"

definition hex_digit :: "nat \<Rightarrow> char" where
  "hex_digit n = (if n < 10 then char_of (48 + n) else char_of (87 + n))"

definition json_escape_char :: "char \<Rightarrow> string" where
  "json_escape_char c =
     (let n = (of_char c :: nat)
      in if n = 34 then [CHR 0x5C, CHR 0x22]
         else if n = 92 then [CHR 0x5C, CHR 0x5C]
         else if n = 10 then [CHR 0x5C, CHR ''n'']
         else if n = 13 then [CHR 0x5C, CHR ''r'']
         else if n = 9 then [CHR 0x5C, CHR ''t'']
         else if n = 8 then [CHR 0x5C, CHR ''b'']
         else if n = 12 then [CHR 0x5C, CHR ''f'']
         else if 32 \<le> n \<and> n \<le> 126 then [c]
         else [CHR 0x5C, CHR ''u'', CHR ''0'', CHR ''0'', hex_digit (n div 16), hex_digit (n mod 16)])"

definition json_string :: "string \<Rightarrow> string" where
  "json_string s = [CHR 0x22] @ concat (map json_escape_char s) @ [CHR 0x22]"

fun digits10 :: "nat \<Rightarrow> string" where
  "digits10 n = (if n < 10 then [char_of (48 + n)] else digits10 (n div 10) @ [char_of (48 + n mod 10)])"

declare digits10.simps [simp del]

definition str_int :: "int \<Rightarrow> string" where
  "str_int i = (if i < 0 then CHR ''-'' # digits10 (nat (- i)) else digits10 (nat i))"

fun join_str :: "string \<Rightarrow> string list \<Rightarrow> string" where
  "join_str sep [] = []"
| "join_str sep [x] = x"
| "join_str sep (x # y # ys) = x @ sep @ join_str sep (y # ys)"

fun json_dumps_sort_keys :: "json \<Rightarrow> string" where
  "json_dumps_sort_keys JNull = ''null''"
| "json_dumps_sort_keys (JBool b) = (if b then ''true'' else ''false'')"
| "json_dumps_sort_keys (JInt i) = str_int i"
| "json_dumps_sort_keys (JFloat r) = r"
| "json_dumps_sort_keys (JStr s) = json_string s"
| "json_dumps_sort_keys (JList xs) =
     ''['' @ join_str '', '' (map json_dumps_sort_keys xs) @ '']''"
| "json_dumps_sort_keys (JDict kvs) =
     ''{'' @ join_str '', ''
        (map (\<lambda>(k, v). json_string k @ '': '' @ json_dumps_sort_keys v) (sort_key fst kvs))
      @ ''}''"


section \<open>Hashes and signatures (web3, eth\_account)\<close>

text \<open>
  \<open>Web3.solidity_keccak(types, values)\<close> and \<open>Account.sign_message\<close> belong to external
  libraries. They are modelled symbolically: a digest is the term \<open>Keccak args\<close> over the
  typed arguments that were packed and hashed, and a signature is the term
  \<open>Signature key digest\<close> over the signing key and the digest that was wrapped by
  \<open>encode_defunct\<close>. Two digests are equal exactly when the hashed arguments are, which
  is the usual perfect-hash idealisation (keccak is taken to be collision free).
\<close>

datatype abi_value =
    AbiString string
  | AbiBytes32 bytes32
  | AbiUint256 "256 word"
and bytes32 = Keccak "abi_value list"

datatype signature = Signature string bytes32

definition solidity_keccak :: "abi_value list \<Rightarrow> bytes32" where
  "solidity_keccak values = Keccak values"

definition sign_message :: "string \<Rightarrow> bytes32 \<Rightarrow> signature" where
  "sign_message key message_hash = Signature key message_hash"

section \<open>Exceptions, the ledger and its client (blockchain\_client.py)\<close>

text \<open>A raised Python exception: its class name and its message (\<open>str(e)\<close>).\<close>

datatype exn = Exn (exn_class: string) (exn_msg: string)

datatype event_log =
    CrewFormed nat
  | DecisionLogged nat
  | ConsensusRequested nat
  | OtherEvent string

record receipt =
  status :: nat
  blockNumber :: nat
  logs :: "event_log list"

text \<open>The state-changing contract functions, with the arguments the client passes.\<close>

datatype contract_call =
    RegisterAgent string string nat
  | FormCrew bytes32 "string list" int
  | LogDecision nat bytes32 nat nat int "string list" "signature list" string
  | MarkExecuted nat
  | RequestConsensus nat bytes32
  | CastVote nat bool

record transaction =
  tx_call :: contract_call
  tx_from :: string
  tx_nonce :: nat
  tx_gas :: nat
  tx_gasPrice :: nat

text \<open>
  The external ledger is a state machine over an abstract state \<open>'s\<close>. Read-only contract
  calls and node queries are functions of the state that may raise; submitting a raw
  transaction is the only call that changes it. \<open>send_raw_transaction\<close> takes the
  transaction and the key it was signed with and returns the transaction hash in hex.
\<close>

record 's chain =
  isCritical :: "'s \<Rightarrow> int \<Rightarrow> exn + bool"
  getNonce :: "'s \<Rightarrow> string \<Rightarrow> exn + 256 word"
  hasConsensusPassed :: "'s \<Rightarrow> nat \<Rightarrow> exn + bool"
  get_transaction_count :: "'s \<Rightarrow> string \<Rightarrow> exn + nat"
  gas_price :: "'s \<Rightarrow> exn + nat"
  send_raw_transaction :: "'s \<Rightarrow> transaction \<times> string \<Rightarrow> (exn + string) \<times> 's"
  wait_for_transaction_receipt :: "'s \<Rightarrow> string \<Rightarrow> exn + receipt"

text \<open>
  The world a detection pass runs in: the ledger state and the transactions handed to
  \<open>send_raw_transaction\<close> so far, oldest first. A computation takes the world and
  returns a value or a raised exception together with the new world.
\<close>

record 's world =
  ledger :: 's
  sent :: "transaction list"

type_synonym ('s, 'a) io = "'s world \<Rightarrow> (exn + 'a) \<times> 's world"

definition ret :: "'a \<Rightarrow> ('s, 'a) io" where
  "ret x = (\<lambda>w. (Inr x, w))"

definition raise :: "exn \<Rightarrow> ('s, 'a) io" where
  "raise e = (\<lambda>w. (Inl e, w))"

definition bnd :: "('s, 'a) io \<Rightarrow> ('a \<Rightarrow> ('s, 'b) io) \<Rightarrow> ('s, 'b) io" where
  "bnd m f = (\<lambda>w. case m w of (Inl e, w') \<Rightarrow> (Inl e, w') | (Inr x, w') \<Rightarrow> f x w')"

text \<open>\<open>try: m except Exception as e: h e\<close>.\<close>

definition try_except :: "('s, 'a) io \<Rightarrow> (exn \<Rightarrow> ('s, 'a) io) \<Rightarrow> ('s, 'a) io" where
  "try_except m h = (\<lambda>w. case m w of (Inl e, w') \<Rightarrow> h e w' | (Inr x, w') \<Rightarrow> (Inr x, w'))"

definition read_ledger :: "('s \<Rightarrow> exn + 'a) \<Rightarrow> ('s, 'a) io" where
  "read_ledger f = (\<lambda>w. (f (ledger w), w))"

record client =
  private_key :: string
  address :: string

definition is_critical :: "'s chain \<Rightarrow> int \<Rightarrow> ('s, bool) io" where
  "is_critical ch methane_ppm = read_ledger (\<lambda>s. isCritical ch s methane_ppm)"

definition get_nonce :: "'s chain \<Rightarrow> client \<Rightarrow> ('s, 256 word) io" where
  "get_nonce ch c = read_ledger (\<lambda>s. getNonce ch s (address c))"

definition has_consensus_passed :: "'s chain \<Rightarrow> nat \<Rightarrow> ('s, bool) io" where
  "has_consensus_passed ch request_id = read_ledger (\<lambda>s. hasConsensusPassed ch s request_id)"

text \<open>
  \<open>contract.functions.f(...).build_transaction({'from', 'nonce', 'gas', 'gasPrice'})\<close>:
  the nonce and the gas price are read from the node.
\<close>

definition build_transaction :: "'s chain \<Rightarrow> client \<Rightarrow> contract_call \<Rightarrow> nat \<Rightarrow> ('s, transaction) io" where
  "build_transaction ch c call gas =
     bnd (read_ledger (\<lambda>s. get_transaction_count ch s (address c))) (\<lambda>nonce.
     bnd (read_ledger (gas_price ch)) (\<lambda>price.
     ret \<lparr>tx_call = call, tx_from = address c, tx_nonce = nonce, tx_gas = gas,
          tx_gasPrice = price\<rparr>))"

text \<open>\<open>_send_transaction\<close>: sign, send, wait for the receipt, raise unless its status is 1.\<close>

definition send_transaction :: "'s chain \<Rightarrow> client \<Rightarrow> transaction \<Rightarrow> ('s, string) io" where
  "send_transaction ch c tx = (\<lambda>w.
     case send_raw_transaction ch (ledger w) (tx, private_key c) of
       (r, s') \<Rightarrow>
         (let w' = w\<lparr>ledger := s', sent := sent w @ [tx]\<rparr>
          in case r of
               Inl e \<Rightarrow> (Inl e, w')
             | Inr tx_hash \<Rightarrow>
                 (case wait_for_transaction_receipt ch s' tx_hash of
                    Inl e \<Rightarrow> (Inl e, w')
                  | Inr receipt \<Rightarrow>
                      if status receipt = 1 then (Inr tx_hash, w')
                      else (Inl (Exn ''Exception'' ''Transaction failed''), w'))))"

definition extract_crew_id_from_receipt :: "receipt \<Rightarrow> nat" where
  "extract_crew_id_from_receipt receipt =
     (case concat (map (\<lambda>l. case l of CrewFormed i \<Rightarrow> [i] | _ \<Rightarrow> []) (logs receipt)) of
        i # _ \<Rightarrow> i
      | [] \<Rightarrow> 0)"

definition extract_decision_id_from_receipt :: "receipt \<Rightarrow> nat" where
  "extract_decision_id_from_receipt receipt =
     (case concat (map (\<lambda>l. case l of DecisionLogged i \<Rightarrow> [i] | _ \<Rightarrow> []) (logs receipt)) of
        i # _ \<Rightarrow> i
      | [] \<Rightarrow> 0)"

definition extract_request_id_from_receipt :: "receipt \<Rightarrow> nat" where
  "extract_request_id_from_receipt receipt =
     (case concat (map (\<lambda>l. case l of ConsensusRequested i \<Rightarrow> [i] | _ \<Rightarrow> []) (logs receipt)) of
        i # _ \<Rightarrow> i
      | [] \<Rightarrow> 0)"

definition form_crew :: "'s chain \<Rightarrow> client \<Rightarrow> bytes32 \<Rightarrow> string list \<Rightarrow> int \<Rightarrow> ('s, string \<times> nat) io" where
  "form_crew ch c event_id members methane_ppm =
     bnd (build_transaction ch c (FormCrew event_id members methane_ppm) 1000000) (\<lambda>tx.
     bnd (send_transaction ch c tx) (\<lambda>tx_hash.
     bnd (read_ledger (\<lambda>s. wait_for_transaction_receipt ch s tx_hash)) (\<lambda>receipt.
     ret (tx_hash, extract_crew_id_from_receipt receipt))))"

definition log_decision ::
  "'s chain \<Rightarrow> client \<Rightarrow> nat \<Rightarrow> bytes32 \<Rightarrow> nat \<Rightarrow> nat \<Rightarrow> int \<Rightarrow> string list \<Rightarrow> signature list \<Rightarrow> string
     \<Rightarrow> ('s, string \<times> nat) io" where
  "log_decision ch c crew_id decision_hash decision_type severity methane_ppm voters signatures notes =
     bnd (build_transaction ch c
            (LogDecision crew_id decision_hash decision_type severity methane_ppm voters
               signatures notes) 2000000) (\<lambda>tx.
     bnd (send_transaction ch c tx) (\<lambda>tx_hash.
     bnd (read_ledger (\<lambda>s. wait_for_transaction_receipt ch s tx_hash)) (\<lambda>receipt.
     ret (tx_hash, extract_decision_id_from_receipt receipt))))"

definition mark_executed :: "'s chain \<Rightarrow> client \<Rightarrow> nat \<Rightarrow> ('s, string) io" where
  "mark_executed ch c decision_id =
     bnd (build_transaction ch c (MarkExecuted decision_id) 100000) (\<lambda>tx.
     send_transaction ch c tx)"

definition request_consensus :: "'s chain \<Rightarrow> client \<Rightarrow> nat \<Rightarrow> bytes32 \<Rightarrow> ('s, string \<times> nat) io" where
  "request_consensus ch c crew_id proposal_hash =
     bnd (build_transaction ch c (RequestConsensus crew_id proposal_hash) 500000) (\<lambda>tx.
     bnd (send_transaction ch c tx) (\<lambda>tx_hash.
     bnd (read_ledger (\<lambda>s. wait_for_transaction_receipt ch s tx_hash)) (\<lambda>receipt.
     ret (tx_hash, extract_request_id_from_receipt receipt))))"

definition cast_vote :: "'s chain \<Rightarrow> client \<Rightarrow> nat \<Rightarrow> bool \<Rightarrow> ('s, string) io" where
  "cast_vote ch c request_id approved =
     bnd (build_transaction ch c (CastVote request_id approved) 200000) (\<lambda>tx.
     send_transaction ch c tx)"

text \<open>
  \<open>sign_decision\<close>: read the signer's nonce, hash \<open>(bytes32 decision_hash, uint256 nonce)\<close>,
  sign the digest with the eth\_sign prefix.
\<close>

definition decision_message_hash :: "bytes32 \<Rightarrow> 256 word \<Rightarrow> bytes32" where
  "decision_message_hash decision_hash nonce =
     solidity_keccak [AbiBytes32 decision_hash, AbiUint256 nonce]"

definition sign_decision :: "'s chain \<Rightarrow> client \<Rightarrow> bytes32 \<Rightarrow> ('s, signature) io" where
  "sign_decision ch c decision_hash =
     bnd (get_nonce ch c) (\<lambda>nonce.
     ret (sign_message (private_key c) (decision_message_hash decision_hash nonce)))"

section \<open>The integrator (crew\_blockchain\_integration.py)\<close>

text \<open>
  \<open>CrewBlockchainIntegrator\<close> after \<open>__init__\<close>: the flag and the client (which
  \<open>__init__\<close> sets whenever it leaves the flag on; no method reads it with the flag off).
\<close>

record integrator =
  enable_blockchain :: bool
  the_client :: client

text \<open>The fields of the \<open>event_data\<close> dictionary; \<open>None\<close> is an absent key.\<close>

record event_data =
  e_timestamp :: "string option"
  e_node_id :: "string option"
  e_methane_ppm :: "real option"

text \<open>
  \<open>_generate_event_id\<close>. \<open>now_iso\<close> is \<open>datetime.now(timezone.utc).isoformat()\<close>, the
  default of the \<open>timestamp\<close> key.
\<close>

definition generate_event_id :: "string \<Rightarrow> event_data \<Rightarrow> bytes32" where
  "generate_event_id now_iso ev =
     (let timestamp = (case e_timestamp ev of Some t \<Rightarrow> t | None \<Rightarrow> now_iso);
          node_id = (case e_node_id ev of Some n \<Rightarrow> n | None \<Rightarrow> ''unknown'');
          event_str = timestamp @ ''-'' @ node_id
      in solidity_keccak [AbiString event_str])"

text \<open>\<open>_generate_decision_hash\<close>.\<close>

definition generate_decision_hash :: "json \<Rightarrow> bytes32" where
  "generate_decision_hash decision_data =
     (let decision_json = json_dumps_sort_keys decision_data
      in solidity_keccak [AbiString decision_json])"

text \<open>\<open>int(x)\<close> of a float: truncation towards zero.\<close>

definition py_int :: "real \<Rightarrow> int" where
  "py_int x = (if 0 \<le> x then \<lfloor>x\<rfloor> else \<lceil>x\<rceil>)"

definition lift :: "exn + 'a \<Rightarrow> ('s, 'a) io" where
  "lift r = (\<lambda>w. (r, w))"

definition validate_crew_formation ::
  "'s chain \<Rightarrow> integrator \<Rightarrow> string \<Rightarrow> event_data \<Rightarrow> string list \<Rightarrow> real
     \<Rightarrow> ('s, bool \<times> nat option \<times> string option) io" where
  "validate_crew_formation ch self now_iso ev crew_members methane_ppm =
     (if \<not> enable_blockchain self then ret (True, None, None)
      else try_except
             (let event_id = generate_event_id now_iso ev
              in bnd (form_crew ch (the_client self) event_id crew_members (py_int methane_ppm))
                   (\<lambda>(tx_hash, crew_id). ret (True, Some crew_id, Some tx_hash)))
             (\<lambda>e. ret (False, None, None)))"

text \<open>
  \<open>decision_data.get(key, default)\<close>: only a dictionary has \<open>get\<close>. The messages of the
  exceptions raised here are shortened; every one of them is caught by the caller.
\<close>

definition dict_get :: "json \<Rightarrow> string \<Rightarrow> json \<Rightarrow> exn + json" where
  "dict_get d key dflt =
     (case d of
        JDict kvs \<Rightarrow> Inr (case map_of kvs key of Some v \<Rightarrow> v | None \<Rightarrow> dflt)
      | _ \<Rightarrow> Inl (Exn ''AttributeError'' ''object has no attribute get''))"

text \<open>\<open>self._map_severity(v)\<close> calls \<open>v.lower()\<close>, which only a string has.\<close>

definition severity_of :: "json \<Rightarrow> exn + nat" where
  "severity_of v =
     (case v of
        JStr s \<Rightarrow> Inr (map_severity s)
      | _ \<Rightarrow> Inl (Exn ''AttributeError'' ''object has no attribute lower''))"

text \<open>
  \<open>v[:200]\<close> passed as the \<open>string\<close> argument \<open>notes\<close>: a string is cut to 200
  characters; any other value raises, in the slice or when the call is encoded.
\<close>

definition notes_of :: "json \<Rightarrow> exn + string" where
  "notes_of v =
     (case v of
        JStr s \<Rightarrow> Inr (take 200 s)
      | _ \<Rightarrow> Inl (Exn ''TypeError'' ''notes is not a string''))"

definition validate_critical_decision ::
  "'s chain \<Rightarrow> integrator \<Rightarrow> nat \<Rightarrow> json \<Rightarrow> string list \<Rightarrow> real
     \<Rightarrow> ('s, bool \<times> nat option \<times> string option) io" where
  "validate_critical_decision ch self crew_id decision_data crew_members methane_ppm =
     (if \<not> enable_blockchain self then ret (True, None, None)
      else
        bnd (is_critical ch (py_int methane_ppm)) (\<lambda>critical.
        if \<not> critical then ret (True, None, None)
        else try_except
          (let c = the_client self;
               decision_hash = generate_decision_hash decision_data
           in
           bnd (lift (dict_get decision_data ''severity'' (JStr ''critical''))) (\<lambda>severity_str.
           bnd (lift (severity_of severity_str)) (\<lambda>severity.
           bnd (sign_decision ch c decision_hash) (\<lambda>signature.
           bnd (lift (dict_get decision_data ''explanation'' (JStr ''''))) (\<lambda>explanation.
           bnd (lift (notes_of explanation)) (\<lambda>notes.
           bnd (log_decision ch c crew_id decision_hash DECISION_TYPE_ANOMALY_DETECTION severity
                  (py_int methane_ppm) [address c] [signature] notes) (\<lambda>(tx_hash, decision_id).
           bnd (request_consensus ch c crew_id decision_hash) (\<lambda>(consensus_tx, request_id).
           bnd (if address c \<in> set crew_members
                then bnd (cast_vote ch c request_id True) (\<lambda>vote_tx. ret ())
                else ret ()) (\<lambda>_.
           bnd (has_consensus_passed ch request_id) (\<lambda>consensus_passed.
           ret (consensus_passed, Some decision_id, Some tx_hash)))))))))))
          (\<lambda>e. ret (False, None, None))))"

definition mark_action_executed ::
  "'s chain \<Rightarrow> integrator \<Rightarrow> nat option \<Rightarrow> string \<Rightarrow> bool \<Rightarrow> ('s, string option) io" where
  "mark_action_executed ch self decision_id action_type success =
     (case decision_id of
        None \<Rightarrow> ret None
      | Some d \<Rightarrow>
          if \<not> enable_blockchain self then ret None
          else try_except
                 (bnd (mark_executed ch (the_client self) d) (\<lambda>tx_hash. ret (Some tx_hash)))
                 (\<lambda>e. ret None))"

section \<open>The coordinator (crew\_with\_blockchain.py)\<close>

text \<open>
  A reading, by the two keys this module reads (\<open>None\<close> is an absent key). Concentrations
  are floats, modelled as reals.
\<close>

record reading =
  r_methane_ppm :: "real option"
  r_node_id :: "string option"

text \<open>
  What the module takes from outside: the configured threshold, the process environment,
  the clock, and the collaborators (the reading store, the reasoning service, which
  returns a string or a dictionary, the mail delivery, of which only the outcome is
  modelled, and the indented JSON rendering used for the report text).
\<close>

record environment =
  ABSOLUTE_EMERGENCY_PPM :: real
  getenv :: "string \<Rightarrow> string option"
  now_isoformat :: string
  get_recent_readings :: "int \<Rightarrow> exn + reading list"
  call_chatgpt_reasoner :: "reading list \<Rightarrow> reading list \<Rightarrow> exn + json"
  dumps_indent2 :: "json \<Rightarrow> string"
  send_email_alert :: "string list \<Rightarrow> exn option"

record blockchain_info =
  bi_crew_id :: "nat option"
  bi_decision_id :: "nat option"
  bi_consensus_passed :: "bool option"
  bi_transactions :: "(string \<times> string option) list"

definition ppm_of :: "reading \<Rightarrow> real" where
  "ppm_of r = (case r_methane_ppm r of Some p \<Rightarrow> p | None \<Rightarrow> 0)"

text \<open>
  \<open>detect_anomalies_from_readings\<close>; an anomaly is kept as its reading (the \<open>reason\<close>
  text is not used).
\<close>

definition detect_anomalies_from_readings :: "reading list \<Rightarrow> real \<Rightarrow> reading list" where
  "detect_anomalies_from_readings readings absolute_threshold =
     filter (\<lambda>r. ppm_of r \<ge> absolute_threshold) readings"

text \<open>\<open>_get_crew_member_addresses\<close>: the padding loop, then the function.\<close>

function pad_addresses :: "string list \<Rightarrow> string list" where
  "pad_addresses addresses =
     (if length addresses < 4
      then pad_addresses
             (addresses @ [''0x'' @ replicate 39 (CHR ''0'') @ str_int (int (length addresses) + 1)])
      else addresses)"
  by pat_completeness auto
termination
  by (relation "measure (\<lambda>addresses. 4 - length addresses)") auto

declare pad_addresses.simps [simp del]

definition get_crew_member_addresses :: "(string \<Rightarrow> string option) \<Rightarrow> string list" where
  "get_crew_member_addresses env_get =
     (let node_num = (case env_get ''NODE_NUMBER'' of Some v \<Rightarrow> v | None \<Rightarrow> ''1'');
          addresses =
            [env_get (''NODE'' @ node_num @ ''_SENSOR_ADDRESS''),
             env_get (''NODE'' @ node_num @ ''_AGGREGATOR_ADDRESS''),
             env_get (''NODE'' @ node_num @ ''_DECISION_ADDRESS''),
             env_get (''NODE'' @ node_num @ ''_COORDINATOR_ADDRESS'')];
          addresses = concat (map (\<lambda>a. case a of Some x \<Rightarrow> (if x = [] then [] else [x]) | None \<Rightarrow> [])
                                addresses)
      in pad_addresses addresses)"

text \<open>Python truthiness of an optional id and of an optional string.\<close>

definition truthy_id :: "nat option \<Rightarrow> bool" where
  "truthy_id i = (case i of Some n \<Rightarrow> n \<noteq> 0 | None \<Rightarrow> False)"

definition truthy_str :: "string option \<Rightarrow> bool" where
  "truthy_str s = (case s of Some x \<Rightarrow> x \<noteq> [] | None \<Rightarrow> False)"

text \<open>
  \<open>run_detection_with_blockchain_validation\<close>, in the four blocks of its body after the
  anomalies are detected. First block: crew formation on the ledger.
\<close>

definition crew_formation_step ::
  "'s chain \<Rightarrow> environment \<Rightarrow> integrator option \<Rightarrow> reading \<Rightarrow> real \<Rightarrow> blockchain_info
     \<Rightarrow> ('s, nat option \<times> blockchain_info) io" where
  "crew_formation_step ch env blockchain_integrator first_anomaly max_ppm info =
     (case blockchain_integrator of
        None \<Rightarrow> ret (None, info)
      | Some bi \<Rightarrow>
          if enable_blockchain bi \<and> max_ppm \<ge> ABSOLUTE_EMERGENCY_PPM env then
            (let crew_members = get_crew_member_addresses (getenv env);
                 ev = \<lparr>e_timestamp = Some (now_isoformat env),
                       e_node_id = Some (case r_node_id first_anomaly of
                                           Some n \<Rightarrow> n | None \<Rightarrow> ''unknown''),
                       e_methane_ppm = Some max_ppm\<rparr>
             in bnd (validate_crew_formation ch bi (now_isoformat env) ev crew_members max_ppm)
                  (\<lambda>(success, crew_id, tx_hash).
                     if success \<and> truthy_id crew_id
                     then ret (crew_id,
                               info\<lparr>bi_crew_id := crew_id,
                                    bi_transactions :=
                                      bi_transactions info @ [(''crew_formation'', tx_hash)]\<rparr>)
                     else ret (crew_id, info)))
          else ret (None, info))"

text \<open>Second block: the reasoner, with the fallback report when it raises.\<close>

definition reasoning_step :: "environment \<Rightarrow> reading list \<Rightarrow> reading list \<Rightarrow> string \<times> json" where
  "reasoning_step env anomalies_readings readings =
     (case call_chatgpt_reasoner env anomalies_readings readings of
        Inr report \<Rightarrow>
          ((case report of JStr s \<Rightarrow> s | _ \<Rightarrow> dumps_indent2 env report), report)
      | Inl e \<Rightarrow>
          (let report_text = ''LLM reasoner failed: '' @ exn_msg e
           in (report_text,
               JDict [(''severity'', JStr ''critical''), (''explanation'', JStr report_text)])))"

text \<open>Third block: the decision on the ledger.\<close>

definition decision_step ::
  "'s chain \<Rightarrow> environment \<Rightarrow> integrator option \<Rightarrow> nat option \<Rightarrow> json \<Rightarrow> real \<Rightarrow> blockchain_info
     \<Rightarrow> ('s, nat option \<times> blockchain_info) io" where
  "decision_step ch env blockchain_integrator crew_id report max_ppm info =
     (case blockchain_integrator of
        None \<Rightarrow> ret (None, info)
      | Some bi \<Rightarrow>
          (case crew_id of
             None \<Rightarrow> ret (None, info)
           | Some cid \<Rightarrow>
               if enable_blockchain bi \<and> cid \<noteq> 0 \<and> max_ppm \<ge> ABSOLUTE_EMERGENCY_PPM env then
                 (let crew_members = get_crew_member_addresses (getenv env)
                  in bnd (validate_critical_decision ch bi cid report crew_members max_ppm)
                       (\<lambda>(consensus_passed, decision_id, tx_hash).
                          if truthy_id decision_id
                          then ret (decision_id,
                                    info\<lparr>bi_decision_id := decision_id,
                                         bi_consensus_passed := Some consensus_passed,
                                         bi_transactions :=
                                           bi_transactions info @ [(''decision_log'', tx_hash)]\<rparr>)
                          else ret (decision_id, info)))
               else ret (None, info)))"

text \<open>Fourth block: the alert, and the execution mark after it was sent.\<close>

definition alert_step ::
  "'s chain \<Rightarrow> environment \<Rightarrow> integrator option \<Rightarrow> string list option \<Rightarrow> string \<Rightarrow> nat option
     \<Rightarrow> blockchain_info \<Rightarrow> ('s, bool \<times> string \<times> blockchain_info) io" where
  "alert_step ch env blockchain_integrator send_to report_text decision_id info =
     (let send_to =
            (case send_to of
               Some l \<Rightarrow> l
             | None \<Rightarrow>
                 (let raw = (if truthy_str (getenv env ''ALERT_TO'') then getenv env ''ALERT_TO''
                             else getenv env ''GMAIL_USER'')
                  in case raw of Some x \<Rightarrow> (if x = [] then [] else [x]) | None \<Rightarrow> []))
      in if send_to = []
         then ret (False, report_text @ [CHR 0x0A, CHR 0x0A] @ ''No recipients configured.'', info)
         else try_except
                (bnd (lift (case send_email_alert env send_to of
                              Some e \<Rightarrow> Inl e | None \<Rightarrow> Inr ())) (\<lambda>_.
                 bnd (case blockchain_integrator of
                        None \<Rightarrow> ret info
                      | Some bi \<Rightarrow>
                          if truthy_id decision_id
                          then bnd (mark_action_executed ch bi decision_id ''email_alert'' True)
                                 (\<lambda>tx_hash.
                                    if truthy_str tx_hash
                                    then ret (info\<lparr>bi_transactions :=
                                                      bi_transactions info @ [(''mark_executed'', tx_hash)]\<rparr>)
                                    else ret info)
                          else ret info) (\<lambda>info'.
                 ret (True, report_text, info'))))
                (\<lambda>e. ret (False,
                           report_text @ [CHR 0x0A, CHR 0x0A] @ ''Email error: '' @ exn_msg e,
                           info)))"

definition run_detection_with_blockchain_validation ::
  "'s chain \<Rightarrow> environment \<Rightarrow> integrator option \<Rightarrow> int \<Rightarrow> string list option
     \<Rightarrow> ('s, bool \<times> string \<times> blockchain_info) io" where
  "run_detection_with_blockchain_validation ch env blockchain_integrator limit send_to =
     (let info = \<lparr>bi_crew_id = None, bi_decision_id = None, bi_consensus_passed = None,
                  bi_transactions = []\<rparr>
      in bnd (lift (get_recent_readings env limit)) (\<lambda>readings.
         if readings = [] then ret (False, ''No readings found.'', info)
         else
           (case detect_anomalies_from_readings readings (ABSOLUTE_EMERGENCY_PPM env) of
              [] \<Rightarrow> ret (False, ''No anomalies found.'', info)
            | a # anomalies \<Rightarrow>
                (let max_ppm = fold max (map ppm_of anomalies) (ppm_of a)
                 in bnd (crew_formation_step ch env blockchain_integrator a max_ppm info)
                      (\<lambda>(crew_id, info).
                 case reasoning_step env (a # anomalies) readings of
                   (report_text, report) \<Rightarrow>
                 bnd (decision_step ch env blockchain_integrator crew_id report max_ppm info)
                      (\<lambda>(decision_id, info).
                 alert_step ch env blockchain_integrator send_to report_text decision_id info))))))"


section \<open>Payloads with the same key/value pairs\<close>

text \<open>
  \<open>json_same x y\<close>: \<open>x\<close> and \<open>y\<close> are the same JSON value up to the order in which
  dictionaries list their keys, at every depth: two dictionaries have the same keys and,
  under each key, values that are the same in this sense.
\<close>

inductive json_same :: "json \<Rightarrow> json \<Rightarrow> bool" where
  same_refl: "json_same x x"
| same_list: "list_all2 json_same xs ys \<Longrightarrow> json_same (JList xs) (JList ys)"
| same_dict:
    "distinct (map fst a) \<Longrightarrow> distinct (map fst b) \<Longrightarrow> fst ` set a = fst ` set b \<Longrightarrow>
     (\<forall>k v w. (k, v) \<in> set a \<longrightarrow> (k, w) \<in> set b \<longrightarrow> json_same v w) \<Longrightarrow>
     json_same (JDict a) (JDict b)"

section \<open>The transactions of a pass\<close>

text \<open>
  Predicates on the sent transactions, used to state what a pass submits.
  \<open>sends_at_most call w w'\<close>: between the worlds \<open>w\<close> and \<open>w'\<close> nothing was sent, or one
  transaction carrying \<open>call\<close>.
\<close>

definition sends_at_most :: "contract_call \<Rightarrow> 's world \<Rightarrow> 's world \<Rightarrow> bool" where
  "sends_at_most call w w' \<longleftrightarrow>
     sent w' = sent w \<or> (\<exists>tx. sent w' = sent w @ [tx] \<and> tx_call tx = call)"

text \<open>
  \<open>decision_call c crew_id report methane_ppm call\<close>: \<open>call\<close> is one of the calls
  \<open>validate_critical_decision\<close> submits for \<open>report\<close>: the decision log, whose hash,
  severity and notes are those of the report, the consensus request, or the approving
  vote.
\<close>

definition decision_call :: "client \<Rightarrow> nat \<Rightarrow> json \<Rightarrow> real \<Rightarrow> contract_call \<Rightarrow> bool" where
  "decision_call c crew_id report methane_ppm call \<longleftrightarrow>
     (\<exists>s sev sg e notes.
        call = LogDecision crew_id (generate_decision_hash report) DECISION_TYPE_ANOMALY_DETECTION
                 sev (py_int methane_ppm) [address c] [sg] notes \<and>
        dict_get report ''severity'' (JStr ''critical'') = Inr s \<and> severity_of s = Inr sev \<and>
        dict_get report ''explanation'' (JStr []) = Inr e \<and> notes_of e = Inr notes) \<or>
     (\<exists>h. call = RequestConsensus crew_id h) \<or>
     (\<exists>i. call = CastVote i True)"

definition is_log_decision :: "contract_call \<Rightarrow> bool" where
  "is_log_decision call = (case call of LogDecision _ _ _ _ _ _ _ _ \<Rightarrow> True | _ \<Rightarrow> False)"

definition is_request_consensus :: "contract_call \<Rightarrow> bool" where
  "is_request_consensus call = (case call of RequestConsensus _ _ \<Rightarrow> True | _ \<Rightarrow> False)"

text \<open>
  \<open>decision_loggable ch env bi crew_id max_ppm w\<close>: in the world \<open>w\<close> reached after the
  crew step, the pass gets as far as submitting a decision log whenever the report itself
  is well formed: the integration is on, the crew id is set and non-zero, the
  concentration is critical for the module and for the ledger, and the signer's nonce,
  the transaction count and the gas price can be read.
\<close>

definition decision_loggable ::
  "'s chain \<Rightarrow> environment \<Rightarrow> integrator option \<Rightarrow> nat option \<Rightarrow> real \<Rightarrow> 's world \<Rightarrow> bool" where
  "decision_loggable ch env bi crew_id max_ppm w \<longleftrightarrow>
     (\<exists>self cid n k g.
        bi = Some self \<and> crew_id = Some cid \<and> enable_blockchain self \<and> cid \<noteq> 0 \<and>
        max_ppm \<ge> ABSOLUTE_EMERGENCY_PPM env \<and>
        isCritical ch (ledger w) (py_int max_ppm) = Inr True \<and>
        getNonce ch (ledger w) (address (the_client self)) = Inr n \<and>
        get_transaction_count ch (ledger w) (address (the_client self)) = Inr k \<and>
        gas_price ch (ledger w) = Inr g)"

section \<open>Example worlds\<close>

text \<open>
  A ledger whose state counts the submitted transactions. It accepts every transaction,
  reports 5000 ppm and more as critical, and answers the consensus poll with \<open>passed\<close>.
\<close>

definition demo_chain :: "bool \<Rightarrow> nat chain" where
  "demo_chain passed =
     \<lparr>isCritical = (\<lambda>s n. Inr (n \<ge> 5000)),
      getNonce = (\<lambda>s a. Inr (of_nat s)),
      hasConsensusPassed = (\<lambda>s r. Inr passed),
      get_transaction_count = (\<lambda>s a. Inr s),
      gas_price = (\<lambda>s. Inr 1),
      send_raw_transaction = (\<lambda>s x. (Inr ''0xabc'', Suc s)),
      wait_for_transaction_receipt =
        (\<lambda>s h. Inr \<lparr>status = 1, blockNumber = s,
                     logs = [CrewFormed 4, DecisionLogged 9, ConsensusRequested 11]\<rparr>)\<rparr>"

text \<open>The same ledger, except that every transaction is mined with status 0 (reverted).\<close>

definition rejecting_chain :: "nat chain" where
  "rejecting_chain =
     (demo_chain False)
       \<lparr>wait_for_transaction_receipt :=
          (\<lambda>s h. Inr \<lparr>status = 0, blockNumber = s, logs = []\<rparr>)\<rparr>"

definition demo_client :: client where
  "demo_client =
     \<lparr>private_key = ''key'', address = ''0x0000000000000000000000000000000000000004''\<rparr>"

definition demo_integrator :: integrator where
  "demo_integrator = \<lparr>enable_blockchain = True, the_client = demo_client\<rparr>"

text \<open>
  One reading of \<open>ppm\<close> from node \<open>n1\<close>, threshold 5000, no environment variables; the
  reasoner answers \<open>reasoner\<close>, every report renders as \<open>report\<close>, and the mail goes out.
\<close>

definition demo_env :: "real \<Rightarrow> exn + json \<Rightarrow> environment" where
  "demo_env ppm reasoner =
     \<lparr>ABSOLUTE_EMERGENCY_PPM = 5000,
      getenv = (\<lambda>k. None),
      now_isoformat = ''2025-01-01T00:00:00+00:00'',
      get_recent_readings = (\<lambda>l. Inr [\<lparr>r_methane_ppm = Some ppm, r_node_id = Some ''n1''\<rparr>]),
      call_chatgpt_reasoner = (\<lambda>a r. reasoner),
      dumps_indent2 = (\<lambda>j. ''report''),
      send_email_alert = (\<lambda>r. None)\<rparr>"

definition demo_report :: json where
  "demo_report = JDict [(''severity'', JStr ''critical''), (''explanation'', JStr ''leak'')]"

definition demo_world :: "nat world" where
  "demo_world = \<lparr>ledger = 0, sent = []\<rparr>"

section \<open>Facts about the primitives\<close>

lemmas io_defs = ret_def raise_def bnd_def try_except_def read_ledger_def lift_def

lemma bnd_cases:
  assumes "bnd m f w = (r, w')"
  obtains (raised) e where "m w = (Inl e, w')" "r = Inl e"
        | (returned) x w1 where "m w = (Inr x, w1)" "f x w1 = (r, w')"
  using assms by (auto simp: bnd_def split: prod.splits sum.splits)

lemma try_except_cases:
  assumes "try_except m h w = (r, w')"
  obtains (caught) e w1 where "m w = (Inl e, w1)" "h e w1 = (r, w')"
        | (passed) x where "m w = (Inr x, w')" "r = Inr x"
  using assms by (auto simp: try_except_def split: prod.splits sum.splits)

lemma ret_eq [simp]: "ret x w = (r, w') \<longleftrightarrow> r = Inr x \<and> w' = w"
  by (auto simp: ret_def)

lemma lift_eq [simp]: "lift v w = (r, w') \<longleftrightarrow> v = r \<and> w' = w"
  by (auto simp: lift_def)

lemma read_ledger_eq [simp]: "read_ledger f w = (r, w') \<longleftrightarrow> f (ledger w) = r \<and> w' = w"
  by (auto simp: read_ledger_def)

lemma build_transaction_result:
  assumes "build_transaction ch c call gas w = (r, w')"
  shows "w' = w \<and> (\<forall>tx. r = Inr tx \<longrightarrow> tx_call tx = call)"
  using assms by (auto simp: build_transaction_def elim!: bnd_cases)

lemma send_transaction_sent:
  assumes "send_transaction ch c tx w = (r, w')"
  shows "sent w' = sent w @ [tx]"
  using assms
  by (auto simp: send_transaction_def Let_def split: prod.splits sum.splits if_splits)

lemma submit_sent:
  assumes "bnd (build_transaction ch c call gas) (\<lambda>tx. send_transaction ch c tx) w = (r, w')"
  shows "sends_at_most call w w'"
  using assms
  by (auto simp: sends_at_most_def elim!: bnd_cases dest!: build_transaction_result send_transaction_sent)

lemma mark_executed_sent:
  "mark_executed ch c d w = (r, w') \<Longrightarrow> sends_at_most (MarkExecuted d) w w'"
  unfolding mark_executed_def by (rule submit_sent)

lemma cast_vote_sent:
  "cast_vote ch c i a w = (r, w') \<Longrightarrow> sends_at_most (CastVote i a) w w'"
  unfolding cast_vote_def by (rule submit_sent)

lemma form_crew_sent:
  "form_crew ch c e m p w = (r, w') \<Longrightarrow> sends_at_most (FormCrew e m p) w w'"
  by (auto simp: form_crew_def sends_at_most_def elim!: bnd_cases
      dest!: build_transaction_result send_transaction_sent)

lemma log_decision_sent:
  "log_decision ch c cid h t s p v g n w = (r, w') \<Longrightarrow>
     sends_at_most (LogDecision cid h t s p v g n) w w' \<and>
     ((\<exists>x. r = Inr x) \<longrightarrow>
        (\<exists>tx. sent w' = sent w @ [tx] \<and> tx_call tx = LogDecision cid h t s p v g n))"
  by (auto simp: log_decision_def sends_at_most_def elim!: bnd_cases
      dest!: build_transaction_result send_transaction_sent)

lemma request_consensus_sent:
  "request_consensus ch c cid h w = (r, w') \<Longrightarrow>
     sends_at_most (RequestConsensus cid h) w w' \<and>
     ((\<exists>x. r = Inr x) \<longrightarrow>
        (\<exists>tx. sent w' = sent w @ [tx] \<and> tx_call tx = RequestConsensus cid h))"
  by (auto simp: request_consensus_def sends_at_most_def elim!: bnd_cases
      dest!: build_transaction_result send_transaction_sent)

lemma sign_decision_world:
  "sign_decision ch c h w = (r, w') \<Longrightarrow> w' = w"
  by (auto simp: sign_decision_def get_nonce_def elim!: bnd_cases)

lemma sends_at_most_refl [simp]: "sends_at_most call w w"
  by (simp add: sends_at_most_def)

lemma validate_crew_formation_result:
  assumes "validate_crew_formation ch self now ev members ppm w = (r, w')"
  shows "(\<exists>res. r = Inr res) \<and>
         sends_at_most (FormCrew (generate_event_id now ev) members (py_int ppm)) w w'"
  using assms
  by (auto simp: validate_crew_formation_def Let_def split: if_splits
      elim!: try_except_cases bnd_cases dest: form_crew_sent)

lemma mark_action_executed_result:
  assumes "mark_action_executed ch self decision_id action_type success w = (r, w')"
  shows "(\<exists>res. r = Inr res) \<and>
         (sent w' = sent w \<or>
          (\<exists>tx d. sent w' = sent w @ [tx] \<and> tx_call tx = MarkExecuted d \<and> decision_id = Some d))"
  using assms
  by (auto simp: mark_action_executed_def sends_at_most_def split: if_splits option.splits
      elim!: try_except_cases bnd_cases dest!: mark_executed_sent)

lemma critical_block_sent:
  assumes "bnd (lift (dict_get report ''severity'' (JStr ''critical''))) (\<lambda>severity_str.
           bnd (lift (severity_of severity_str)) (\<lambda>severity.
           bnd (sign_decision ch c decision_hash) (\<lambda>signature.
           bnd (lift (dict_get report ''explanation'' (JStr []))) (\<lambda>explanation.
           bnd (lift (notes_of explanation)) (\<lambda>notes.
           bnd (log_decision ch c crew_id decision_hash DECISION_TYPE_ANOMALY_DETECTION severity
                  p [address c] [signature] notes) (\<lambda>(tx_hash, decision_id).
           bnd (request_consensus ch c crew_id decision_hash) (\<lambda>(consensus_tx, request_id).
           bnd (if address c \<in> set crew_members
                then bnd (cast_vote ch c request_id True) (\<lambda>vote_tx. ret ())
                else ret ()) (\<lambda>_.
           bnd (has_consensus_passed ch request_id) (\<lambda>consensus_passed.
           ret (consensus_passed, Some decision_id, Some tx_hash)))))))))) w = (r, w')"
  shows "\<exists>new. sent w' = sent w @ new \<and>
           (\<forall>t \<in> set new.
              (\<exists>s sev sg e notes.
                 tx_call t = LogDecision crew_id decision_hash DECISION_TYPE_ANOMALY_DETECTION
                   sev p [address c] [sg] notes \<and>
                 dict_get report ''severity'' (JStr ''critical'') = Inr s \<and> severity_of s = Inr sev \<and>
                 dict_get report ''explanation'' (JStr []) = Inr e \<and> notes_of e = Inr notes) \<or>
              (\<exists>h. tx_call t = RequestConsensus crew_id h) \<or>
              (\<exists>i. tx_call t = CastVote i True)) \<and>
           (\<forall>x. r = Inr x \<longrightarrow>
              (\<exists>t1 t2 rest. new = t1 # t2 # rest \<and>
                 (\<exists>sev sg notes. tx_call t1 =
                    LogDecision crew_id decision_hash DECISION_TYPE_ANOMALY_DETECTION
                      sev p [address c] [sg] notes) \<and>
                 tx_call t2 = RequestConsensus crew_id decision_hash))"
  using assms
  by (auto simp: has_consensus_passed_def sends_at_most_def split: if_splits
      elim!: bnd_cases
      dest!: log_decision_sent request_consensus_sent cast_vote_sent sign_decision_world)


lemma validate_critical_decision_result:
  assumes "validate_critical_decision ch self crew_id report members ppm w = (r, w')"
  shows "\<exists>new. sent w' = sent w @ new \<and>
           (\<forall>t \<in> set new. decision_call (the_client self) crew_id report ppm (tx_call t)) \<and>
           (\<forall>passed d h. r = Inr (passed, Some d, h) \<longrightarrow>
              (\<exists>t1 t2 rest. new = t1 # t2 # rest \<and> is_log_decision (tx_call t1) \<and>
                 is_request_consensus (tx_call t2)))"
proof (cases "enable_blockchain self")
  case False
  with assms show ?thesis by (simp add: validate_critical_decision_def)
next
  case True
  from assms True have
    "bnd (is_critical ch (py_int ppm)) (\<lambda>critical.
        if \<not> critical then ret (True, None, None)
        else try_except
          (bnd (lift (dict_get report ''severity'' (JStr ''critical''))) (\<lambda>severity_str.
           bnd (lift (severity_of severity_str)) (\<lambda>severity.
           bnd (sign_decision ch (the_client self) (generate_decision_hash report)) (\<lambda>signature.
           bnd (lift (dict_get report ''explanation'' (JStr []))) (\<lambda>explanation.
           bnd (lift (notes_of explanation)) (\<lambda>notes.
           bnd (log_decision ch (the_client self) crew_id (generate_decision_hash report)
                  DECISION_TYPE_ANOMALY_DETECTION severity
                  (py_int ppm) [address (the_client self)] [signature] notes) (\<lambda>(tx_hash, decision_id).
           bnd (request_consensus ch (the_client self) crew_id (generate_decision_hash report))
               (\<lambda>(consensus_tx, request_id).
           bnd (if address (the_client self) \<in> set members
                then bnd (cast_vote ch (the_client self) request_id True) (\<lambda>vote_tx. ret ())
                else ret ()) (\<lambda>_.
           bnd (has_consensus_passed ch request_id) (\<lambda>consensus_passed.
           ret (consensus_passed, Some decision_id, Some tx_hash)))))))))))
          (\<lambda>e. ret (False, None, None))) w = (r, w')"
    unfolding validate_critical_decision_def Let_def by simp
  then show ?thesis
  proof (cases rule: bnd_cases)
    case (raised e)
    then show ?thesis by (simp add: is_critical_def)
  next
    case (returned critical w1)
    then have w1: "w1 = w" by (simp add: is_critical_def)
    show ?thesis
    proof (cases critical)
      case False
      with returned show ?thesis by (simp add: w1)
    next
      case True
      with returned(2) show ?thesis
        apply (simp add: w1)
        apply (erule try_except_cases)
         apply (drule critical_block_sent)
         apply (auto simp: decision_call_def)[1]
        apply (drule critical_block_sent)
        apply (auto simp: decision_call_def is_log_decision_def is_request_consensus_def)
        done
    qed
  qed
qed

lemma crew_formation_step_result:
  assumes "crew_formation_step ch env bi a max_ppm info w = (r, w')"
  shows "(\<exists>crew_id info'. r = Inr (crew_id, info') \<and>
            bi_decision_id info' = bi_decision_id info \<and>
            bi_consensus_passed info' = bi_consensus_passed info) \<and>
         (sent w' = sent w \<or>
          (\<exists>tx e m p. sent w' = sent w @ [tx] \<and> tx_call tx = FormCrew e m p))"
  using assms
  unfolding crew_formation_step_def Let_def
  by (auto simp: sends_at_most_def split: option.splits if_splits
      elim!: bnd_cases dest!: validate_crew_formation_result)

lemma decision_step_result:
  assumes "decision_step ch env bi crew_id report max_ppm info w = (r, w')"
  shows "\<exists>new. sent w' = sent w @ new \<and>
           (\<forall>t \<in> set new. \<exists>c cid. decision_call c cid report max_ppm (tx_call t)) \<and>
           (\<forall>decision_id info'. r = Inr (decision_id, info') \<longrightarrow> truthy_id decision_id \<longrightarrow>
              bi_decision_id info' = decision_id \<and>
              (\<exists>b. bi_consensus_passed info' = Some b) \<and>
              (\<exists>t1 t2 rest. new = t1 # t2 # rest \<and> is_log_decision (tx_call t1) \<and>
                 is_request_consensus (tx_call t2)))"
proof -
  have skip: ?thesis if "r = Inr (None, info)" "w' = w"
    using that by (simp add: truthy_id_def)
  show ?thesis
  proof (cases bi)
    case None
    with assms show ?thesis by (intro skip) (simp_all add: decision_step_def)
  next
    case (Some self)
    show ?thesis
    proof (cases crew_id)
      case None
      with assms Some show ?thesis by (intro skip) (simp_all add: decision_step_def)
    next
      case cid: (Some cid)
      show ?thesis
      proof (cases "enable_blockchain self \<and> cid \<noteq> 0 \<and> max_ppm \<ge> ABSOLUTE_EMERGENCY_PPM env")
        case False
        with assms Some cid show ?thesis
          by (intro skip) (auto simp add: decision_step_def)
      next
        case True
        with assms Some cid have
          "bnd (validate_critical_decision ch self cid report
                  (get_crew_member_addresses (getenv env)) max_ppm)
             (\<lambda>(consensus_passed, decision_id, tx_hash).
                if truthy_id decision_id
                then ret (decision_id,
                          info\<lparr>bi_decision_id := decision_id,
                               bi_consensus_passed := Some consensus_passed,
                               bi_transactions :=
                                 bi_transactions info @ [(''decision_log'', tx_hash)]\<rparr>)
                else ret (decision_id, info)) w = (r, w')"
          by (simp add: decision_step_def Let_def)
        then show ?thesis
        proof (cases rule: bnd_cases)
          case (raised e)
          from validate_critical_decision_result [OF raised(1)] raised(2) show ?thesis
            by auto
        next
          case (returned x w1)
          obtain passed did h where x: "x = (passed, did, h)" by (cases x)
          from validate_critical_decision_result [OF returned(1)]
          obtain new where all:
            "sent w1 = sent w @ new \<and>
             (\<forall>t \<in> set new. decision_call (the_client self) cid report max_ppm (tx_call t)) \<and>
             (\<forall>passed d h. (Inr x :: exn + bool \<times> nat option \<times> string option)
                  = Inr (passed, Some d, h) \<longrightarrow>
                (\<exists>t1 t2 rest. new = t1 # t2 # rest \<and> is_log_decision (tx_call t1) \<and>
                   is_request_consensus (tx_call t2)))"
            by (rule exE)
          note new = all [THEN conjunct1] all [THEN conjunct2, THEN conjunct1]
            all [THEN conjunct2, THEN conjunct2]
          have w': "w' = w1" using returned(2) by (simp add: x split: if_splits)
          show ?thesis
          proof (intro exI conjI)
            show "sent w' = sent w @ new" using new(1) w' by simp
            show "\<forall>t \<in> set new. \<exists>c cid. decision_call c cid report max_ppm (tx_call t)"
              using new(2) by blast
            show "\<forall>decision_id info'. r = Inr (decision_id, info') \<longrightarrow> truthy_id decision_id \<longrightarrow>
                    bi_decision_id info' = decision_id \<and>
                    (\<exists>b. bi_consensus_passed info' = Some b) \<and>
                    (\<exists>t1 t2 rest. new = t1 # t2 # rest \<and> is_log_decision (tx_call t1) \<and>
                       is_request_consensus (tx_call t2))"
            proof (intro allI impI)
              fix decision_id info'
              assume r: "r = Inr (decision_id, info')" and t: "truthy_id decision_id"
              from returned(2) r t have d: "decision_id = did"
                and i: "info' = info\<lparr>bi_decision_id := did,
                                     bi_consensus_passed := Some passed,
                                     bi_transactions :=
                                       bi_transactions info @ [(''decision_log'', h)]\<rparr>"
                by (auto simp: x split: if_splits)
              from t d obtain n where n: "did = Some n" by (cases did) (auto simp: truthy_id_def)
              from new(3) x n have "\<exists>t1 t2 rest. new = t1 # t2 # rest \<and>
                  is_log_decision (tx_call t1) \<and> is_request_consensus (tx_call t2)"
                by simp
              then show "bi_decision_id info' = decision_id \<and>
                    (\<exists>b. bi_consensus_passed info' = Some b) \<and>
                    (\<exists>t1 t2 rest. new = t1 # t2 # rest \<and> is_log_decision (tx_call t1) \<and>
                       is_request_consensus (tx_call t2))"
                by (simp add: d i)
            qed
          qed
        qed
      qed
    qed
  qed
qed

lemma mark_block_result:
  assumes "(case bi of
              None \<Rightarrow> ret info
            | Some self \<Rightarrow>
                if truthy_id decision_id
                then bnd (mark_action_executed ch self decision_id action True)
                       (\<lambda>tx_hash.
                          if truthy_str tx_hash
                          then ret (info\<lparr>bi_transactions :=
                                            bi_transactions info @ [(''mark_executed'', tx_hash)]\<rparr>)
                          else ret info)
                else ret info) w = (r, w')"
  shows "\<exists>info'. r = Inr info' \<and> bi_decision_id info' = bi_decision_id info \<and>
           bi_consensus_passed info' = bi_consensus_passed info \<and>
           (sent w' = sent w \<or>
            (\<exists>tx d. sent w' = sent w @ [tx] \<and> tx_call tx = MarkExecuted d \<and>
               decision_id = Some d \<and> d \<noteq> 0))"
  using assms
  by (auto simp: truthy_id_def split: option.splits if_splits
      elim!: bnd_cases dest!: mark_action_executed_result)

lemma alert_body_result:
  assumes "(if rs = []
            then ret (False, text0, info)
            else try_except
                (bnd (lift (case send_email_alert env rs of
                              Some e \<Rightarrow> Inl e | None \<Rightarrow> Inr ())) (\<lambda>_.
                 bnd (case bi of
                        None \<Rightarrow> ret info
                      | Some self \<Rightarrow>
                          if truthy_id decision_id
                          then bnd (mark_action_executed ch self decision_id ''email_alert'' True)
                                 (\<lambda>tx_hash.
                                    if truthy_str tx_hash
                                    then ret (info\<lparr>bi_transactions :=
                                                      bi_transactions info @ [(''mark_executed'', tx_hash)]\<rparr>)
                                    else ret info)
                          else ret info) (\<lambda>info'.
                 ret (True, report_text, info'))))
                (\<lambda>e. ret (False, text1 e, info))) w = (r, w')"
  shows "sent w' = sent w \<or>
         (\<exists>tx d info'. sent w' = sent w @ [tx] \<and> tx_call tx = MarkExecuted d \<and>
            decision_id = Some d \<and> d \<noteq> 0 \<and> r = Inr (True, report_text, info') \<and>
            bi_decision_id info' = bi_decision_id info \<and>
            bi_consensus_passed info' = bi_consensus_passed info)"
proof (cases "rs = []")
  case True
  with assms show ?thesis by simp
next
  case False
  with assms show ?thesis
    apply simp
    apply (erule try_except_cases)
     apply (erule bnd_cases)
      apply simp
     apply (erule bnd_cases)
      apply (drule mark_block_result)
      apply simp
     apply simp
    apply (erule bnd_cases)
     apply simp
    apply (erule bnd_cases)
     apply simp
    apply (drule mark_block_result)
    apply auto
    done
qed

lemma alert_step_result:
  assumes "alert_step ch env bi send_to report_text decision_id info w = (r, w')"
  shows "sent w' = sent w \<or>
         (\<exists>tx d info'. sent w' = sent w @ [tx] \<and> tx_call tx = MarkExecuted d \<and>
            decision_id = Some d \<and> d \<noteq> 0 \<and> r = Inr (True, report_text, info') \<and>
            bi_decision_id info' = bi_decision_id info \<and>
            bi_consensus_passed info' = bi_consensus_passed info)"
  using assms unfolding alert_step_def Let_def by (rule alert_body_result)

lemma run_cases:
  assumes "run_detection_with_blockchain_validation ch env bi limit send_to w = (r, w')"
  obtains (early) "w' = w"
  | (governed) readings a anomalies crew_id info1 w1 where
      "get_recent_readings env limit = Inr readings"
      "detect_anomalies_from_readings readings (ABSOLUTE_EMERGENCY_PPM env) = a # anomalies"
      "crew_formation_step ch env bi a (fold max (map ppm_of anomalies) (ppm_of a))
         \<lparr>bi_crew_id = None, bi_decision_id = None, bi_consensus_passed = None,
          bi_transactions = []\<rparr> w = (Inr (crew_id, info1), w1)"
      "bnd (decision_step ch env bi crew_id (snd (reasoning_step env (a # anomalies) readings))
              (fold max (map ppm_of anomalies) (ppm_of a)) info1)
         (\<lambda>(decision_id, info).
            alert_step ch env bi send_to (fst (reasoning_step env (a # anomalies) readings))
              decision_id info) w1 = (r, w')"
  using assms
  unfolding run_detection_with_blockchain_validation_def Let_def
  apply (erule_tac bnd_cases)
   apply simp
  apply (simp split: if_splits list.splits)
  apply (erule bnd_cases)
   apply (drule crew_formation_step_result)
   apply simp
  apply (auto simp: split_beta)
  done


section \<open>The severity table and the evaluator\<close>

text \<open>
  C7. The severity mapping is the fixed closed table: after lower-casing, \<open>safe\<close> and
  \<open>normal\<close> give Safe (0), \<open>warning\<close> gives Warning (1), \<open>critical\<close> and \<open>emergency\<close>
  give Critical (2), and every other string gives the default Warning (1).
\<close>

theorem map_severity_table:
  "map_severity s =
     (if lower s = ''safe'' \<or> lower s = ''normal'' then 0
      else if lower s = ''warning'' then 1
      else if lower s = ''critical'' \<or> lower s = ''emergency'' then 2
      else 1)"
  by (simp add: map_severity_def severity_map_def SEVERITY_SAFE_def SEVERITY_WARNING_def
      SEVERITY_CRITICAL_def)

theorem map_severity_table_witness:
  "map_severity ''CRITICAL'' = 2 \<and> map_severity ''Safe'' = 0 \<and>
   map_severity ''emergency'' = 2 \<and> map_severity ''unknown'' = 1"
proof -
  have l: "lower ''CRITICAL'' = ''critical''" "lower ''Safe'' = ''safe''"
    "lower ''emergency'' = ''emergency''" "lower ''unknown'' = ''unknown''"
    by code_simp+
  show ?thesis
    using map_severity_table [of "''CRITICAL''"] map_severity_table [of "''Safe''"]
      map_severity_table [of "''emergency''"] map_severity_table [of "''unknown''"]
    by (simp add: l)
qed

text \<open>
  C2. The evaluator is fail-safe on an empty crew: with \<open>total_eligible = 0\<close> the verdict
  is FAIL, and so never PASS, for every votes mapping and every consensus percentage.
\<close>

theorem evaluate_empty_crew_fail:
  "evaluate votes 0 consensus_percentage = FAIL \<and>
   evaluate votes 0 consensus_percentage \<noteq> PASS"
  by (simp add: evaluate_def)

theorem evaluate_empty_crew_fail_witness:
  "evaluate [] 0 51 = FAIL \<and> evaluate [(''a'', True), (''b'', True)] 0 0 = FAIL"
  using evaluate_empty_crew_fail [of "[]" 51]
    evaluate_empty_crew_fail [of "[(''a'', True), (''b'', True)]" 0]
  by simp


section \<open>Canonical decision hash\<close>

lemma map_insort_key: "map f (insort_key f x xs) = insort (f x) (map f xs)"
  by (induction xs) auto

lemma map_sort_key: "map f (sort_key f xs) = sort (map f xs)"
  by (induction xs) (auto simp: map_insort_key)

lemma sort_distinct_set_eq:
  fixes xs ys :: "'a::linorder list"
  assumes "distinct xs" "distinct ys" "set xs = set ys"
  shows "sort xs = sort ys"
proof -
  have m: "mset xs = mset ys"
    using assms(3) by (simp only: set_eq_iff_mset_eq_distinct [OF assms(1) assms(2)])
  show ?thesis
  proof (rule properties_for_sort)
    show "mset (sort ys) = mset xs" by (simp add: m)
    show "sorted (sort ys)" by simp
  qed
qed

lemma sorted_items_keys:
  assumes "distinct (map fst a)" "distinct (map fst b)" "fst ` set a = fst ` set b"
  shows "map fst (sort_key fst a) = map fst (sort_key fst b)"
proof -
  have "set (map fst a) = set (map fst b)" using assms(3) by simp
  then have "sort (map fst a) = sort (map fst b)"
    by (rule sort_distinct_set_eq [OF assms(1) assms(2)])
  then show ?thesis by (simp only: map_sort_key)
qed

lemma map_eq_by_keys:
  assumes keys: "map fst xs = map fst ys"
    and vals: "\<And>k v w. (k, v) \<in> set xs \<Longrightarrow> (k, w) \<in> set ys \<Longrightarrow> g k v = g k w"
  shows "map (\<lambda>(k, v). g k v) xs = map (\<lambda>(k, v). g k v) ys"
proof -
  have len: "length xs = length ys" using keys by (rule map_eq_imp_length_eq)
  from len keys vals show ?thesis
  proof (induction xs ys rule: list_induct2)
    case Nil
    show ?case by simp
  next
    case (Cons x xs y ys)
    obtain k v where x: "x = (k, v)" by (cases x)
    obtain k' w where y: "y = (k', w)" by (cases y)
    from Cons.prems(1) have kk: "k' = k" and rest: "map fst xs = map fst ys"
      by (simp_all add: x y)
    have hd: "g k v = g k w"
      by (rule Cons.prems(2)) (simp_all add: x y kk)
    have tl: "map (\<lambda>(k, v). g k v) xs = map (\<lambda>(k, v). g k v) ys"
    proof (rule Cons.IH [OF rest])
      fix k v w
      assume "(k, v) \<in> set xs" "(k, w) \<in> set ys"
      then show "g k v = g k w" by (intro Cons.prems(2)) simp_all
    qed
    show ?case by (simp add: x y kk hd tl)
  qed
qed

lemma json_same_dumps: "json_same x y \<Longrightarrow> json_dumps_sort_keys x = json_dumps_sort_keys y"
proof (induction rule: json_same.induct)
  case (same_refl x)
  show ?case by (rule refl)
next
  case (same_list xs ys)
  then have "map json_dumps_sort_keys xs = map json_dumps_sort_keys ys"
    by (induction rule: list_all2_induct) simp_all
  then show ?case by simp
next
  case (same_dict a b)
  note da = same_dict(1) and db = same_dict(2) and keys = same_dict(3) and ih = same_dict(4)
  let ?g = "\<lambda>k v. json_string k @ '': '' @ json_dumps_sort_keys v"
  have "map (\<lambda>(k, v). ?g k v) (sort_key fst a) = map (\<lambda>(k, v). ?g k v) (sort_key fst b)"
  proof (rule map_eq_by_keys)
    show "map fst (sort_key fst a) = map fst (sort_key fst b)"
      by (rule sorted_items_keys [OF da db keys])
  next
    fix k v w
    assume "(k, v) \<in> set (sort_key fst a)" "(k, w) \<in> set (sort_key fst b)"
    then have "(k, v) \<in> set a" "(k, w) \<in> set b" by simp_all
    with ih have "json_dumps_sort_keys v = json_dumps_sort_keys w" by blast
    then show "?g k v = ?g k w" by simp
  qed
  then show ?case by simp
qed

text \<open>Dictionaries with the same set of items are the same payload.\<close>

lemma json_same_items:
  assumes "distinct (map fst a)" "distinct (map fst b)" "set a = set b"
  shows "json_same (JDict a) (JDict b)"
proof (rule same_dict [OF assms(1) assms(2)])
  show "fst ` set a = fst ` set b" using assms(3) by simp
  show "\<forall>k v w. (k, v) \<in> set a \<longrightarrow> (k, w) \<in> set b \<longrightarrow> json_same v w"
  proof (intro allI impI)
    fix k v w
    assume "(k, v) \<in> set a" "(k, w) \<in> set b"
    then have "(k, v) \<in> set a" "(k, w) \<in> set a" using assms(3) by simp_all
    then have "v = w" using assms(1) by (rule_tac eq_key_imp_eq_value)
    then show "json_same v w" by (simp add: same_refl)
  qed
qed

text \<open>
  C5. Decision hashing is canonical: two payloads with the same key/value pairs, in
  whatever order their dictionaries list the keys, have the same decision hash.
\<close>

theorem decision_hash_order_independent:
  "json_same d1 d2 \<Longrightarrow> generate_decision_hash d1 = generate_decision_hash d2"
  by (simp add: generate_decision_hash_def json_same_dumps)

theorem decision_hash_order_independent_witness:
  "json_same
     (JDict [(''severity'', JStr ''critical''), (''explanation'', JStr ''leak''),
             (''site'', JDict [(''node'', JStr ''n1''), (''ppm'', JInt 6000)])])
     (JDict [(''site'', JDict [(''ppm'', JInt 6000), (''node'', JStr ''n1'')]),
             (''explanation'', JStr ''leak''), (''severity'', JStr ''critical'')]) \<and>
   generate_decision_hash
     (JDict [(''severity'', JStr ''critical''), (''explanation'', JStr ''leak''),
             (''site'', JDict [(''node'', JStr ''n1''), (''ppm'', JInt 6000)])]) =
   generate_decision_hash
     (JDict [(''site'', JDict [(''ppm'', JInt 6000), (''node'', JStr ''n1'')]),
             (''explanation'', JStr ''leak''), (''severity'', JStr ''critical'')])"
proof -
  have inner: "json_same (JDict [(''node'', JStr ''n1''), (''ppm'', JInt 6000)])
                 (JDict [(''ppm'', JInt 6000), (''node'', JStr ''n1'')])"
    by (rule json_same_items) auto
  have outer: "json_same
     (JDict [(''severity'', JStr ''critical''), (''explanation'', JStr ''leak''),
             (''site'', JDict [(''node'', JStr ''n1''), (''ppm'', JInt 6000)])])
     (JDict [(''site'', JDict [(''ppm'', JInt 6000), (''node'', JStr ''n1'')]),
             (''explanation'', JStr ''leak''), (''severity'', JStr ''critical'')])"
    by (rule same_dict) (auto simp: inner same_refl)
  show ?thesis using outer decision_hash_order_independent [OF outer] by simp
qed


section \<open>Signatures\<close>

text \<open>
  C4. Signatures are nonce-bound: when the ledger reports the nonces \<open>n1 \<noteq> n2\<close> for the
  signer, \<open>sign_decision\<close> signs, for the same decision hash, the digests of
  \<open>(decision_hash, n1)\<close> and of \<open>(decision_hash, n2)\<close>; the two digests differ and so do the
  two signatures, so the signature made at one nonce is not the signature of another.
\<close>

theorem sign_decision_nonce_bound:
  assumes "getNonce ch (ledger w1) (address c) = Inr n1"
    and "getNonce ch (ledger w2) (address c) = Inr n2"
    and "n1 \<noteq> n2"
  shows "fst (sign_decision ch c h w1) =
           Inr (sign_message (private_key c) (decision_message_hash h n1)) \<and>
         fst (sign_decision ch c h w2) =
           Inr (sign_message (private_key c) (decision_message_hash h n2)) \<and>
         decision_message_hash h n1 \<noteq> decision_message_hash h n2 \<and>
         fst (sign_decision ch c h w1) \<noteq> fst (sign_decision ch c h w2)"
  using assms
  by (simp add: sign_decision_def get_nonce_def io_defs sign_message_def
      decision_message_hash_def solidity_keccak_def)

theorem sign_decision_nonce_bound_witness:
  "fst (sign_decision (demo_chain True) demo_client (generate_decision_hash (JDict []))
          \<lparr>ledger = 0, sent = []\<rparr>) \<noteq>
   fst (sign_decision (demo_chain True) demo_client (generate_decision_hash (JDict []))
          \<lparr>ledger = 1, sent = []\<rparr>)"
proof -
  have n0: "getNonce (demo_chain True) (ledger \<lparr>ledger = 0, sent = []\<rparr>) (address demo_client)
              = Inr 0"
    by (simp add: demo_chain_def)
  have n1: "getNonce (demo_chain True) (ledger \<lparr>ledger = 1, sent = []\<rparr>) (address demo_client)
              = Inr 1"
    by (simp add: demo_chain_def)
  have ne: "(0 :: 256 word) \<noteq> 1" by simp
  show ?thesis
    by (rule sign_decision_nonce_bound [OF n0 n1 ne, THEN conjunct2, THEN conjunct2,
          THEN conjunct2])
qed

section \<open>Event identity\<close>

text \<open>
  The event id is the digest of the timestamp string as given, a dash, and the node id:
  with the node id fixed, two ids are equal only when the timestamp strings are equal.
\<close>

lemma generate_event_id_eq_iff:
  "generate_event_id now \<lparr>e_timestamp = Some t1, e_node_id = n, e_methane_ppm = p1\<rparr> =
   generate_event_id now \<lparr>e_timestamp = Some t2, e_node_id = n, e_methane_ppm = p2\<rparr>
   \<longleftrightarrow> t1 = t2"
  by (simp add: generate_event_id_def solidity_keccak_def Let_def)

text \<open>
  C3. Event ids are meant to be keyed by the timestamp rounded to the same-event window
  and the node id. The code hashes the timestamp unrounded: two detections by node \<open>n1\<close>
  one second apart (00:00:00 and 00:00:01, inside one window of 30 seconds) get
  different event ids.
\<close>

theorem generate_event_id_same_window_differs:
  "generate_event_id ''2025-01-01T00:00:05+00:00''
     \<lparr>e_timestamp = Some ''2025-01-01T00:00:00+00:00'', e_node_id = Some ''n1'',
      e_methane_ppm = Some 6000\<rparr> \<noteq>
   generate_event_id ''2025-01-01T00:00:05+00:00''
     \<lparr>e_timestamp = Some ''2025-01-01T00:00:01+00:00'', e_node_id = Some ''n1'',
      e_methane_ppm = Some 6000\<rparr>"
  by (simp add: generate_event_id_def solidity_keccak_def Let_def)

section \<open>Bypasses\<close>

text \<open>
  C10. When the integration is disabled, or the ledger answers that the concentration is
  not critical, \<open>validate_critical_decision\<close> returns \<open>(True, None, None)\<close> and leaves
  the world as it was: no transaction is sent and the ledger state is unchanged.
\<close>

theorem validate_critical_decision_bypass:
  assumes "\<not> enable_blockchain self \<or>
           isCritical ch (ledger w) (py_int methane_ppm) = Inr False"
  shows "validate_critical_decision ch self crew_id decision_data crew_members methane_ppm w =
           (Inr (True, None, None), w)"
  using assms
  by (auto simp: validate_critical_decision_def is_critical_def io_defs)

theorem validate_critical_decision_bypass_witness:
  "validate_critical_decision (demo_chain True) demo_integrator 4 (JDict []) [] 1000 demo_world =
     (Inr (True, None, None), demo_world) \<and>
   validate_critical_decision (demo_chain True) (demo_integrator\<lparr>enable_blockchain := False\<rparr>) 4
     (JDict []) [] 6000 demo_world = (Inr (True, None, None), demo_world)"
  using validate_critical_decision_bypass [of demo_integrator "demo_chain True" demo_world 1000 4
      "JDict []" "[]"]
    validate_critical_decision_bypass [of "demo_integrator\<lparr>enable_blockchain := False\<rparr>"
      "demo_chain True" demo_world 6000 4 "JDict []" "[]"]
  by (simp add: demo_chain_def demo_integrator_def py_int_def)

text \<open>
  C6. A detection pass whose readings are all below the critical threshold the module
  holds (\<open>ABSOLUTE_EMERGENCY_PPM\<close>) returns early, with an empty \<open>blockchain_info\<close>, and
  leaves the world as it was: no crew formation, no decision, no consensus request, no
  vote.
\<close>

theorem bypass_below_threshold:
  assumes "get_recent_readings env limit = Inr readings"
    and "\<forall>r \<in> set readings. ppm_of r < ABSOLUTE_EMERGENCY_PPM env"
  shows "run_detection_with_blockchain_validation ch env blockchain_integrator limit send_to w =
           (Inr (False,
                 if readings = [] then ''No readings found.'' else ''No anomalies found.'',
                 \<lparr>bi_crew_id = None, bi_decision_id = None, bi_consensus_passed = None,
                  bi_transactions = []\<rparr>),
            w)"
proof -
  have "filter (\<lambda>r. ABSOLUTE_EMERGENCY_PPM env \<le> ppm_of r) readings = []"
    using assms(2) by (auto simp: filter_empty_conv)
  then show ?thesis
    using assms(1)
    by (simp add: run_detection_with_blockchain_validation_def detect_anomalies_from_readings_def
        io_defs Let_def)
qed

theorem bypass_below_threshold_witness:
  "run_detection_with_blockchain_validation (demo_chain True) (demo_env 1000 (Inr (JStr ''ok'')))
     (Some demo_integrator) 50 (Some [''ops@example.org'']) demo_world =
     (Inr (False, ''No anomalies found.'',
           \<lparr>bi_crew_id = None, bi_decision_id = None, bi_consensus_passed = None,
            bi_transactions = []\<rparr>),
      demo_world)"
  using bypass_below_threshold [of "demo_env 1000 (Inr (JStr ''ok''))" 50
      "[\<lparr>r_methane_ppm = Some 1000, r_node_id = Some ''n1''\<rparr>]" "demo_chain True"
      "Some demo_integrator" "Some [''ops@example.org'']" demo_world]
  by (simp add: demo_env_def ppm_of_def)

section \<open>Execution marking\<close>

lemmas client_defs = is_critical_def get_nonce_def has_consensus_passed_def
  build_transaction_def send_transaction_def extract_crew_id_from_receipt_def
  extract_decision_id_from_receipt_def extract_request_id_from_receipt_def form_crew_def
  log_decision_def mark_executed_def request_consensus_def cast_vote_def sign_decision_def

lemmas integrator_defs = validate_crew_formation_def validate_critical_decision_def
  mark_action_executed_def dict_get_def severity_of_def notes_of_def py_int_def

lemmas coordinator_defs = run_detection_with_blockchain_validation_def crew_formation_step_def
  reasoning_step_def decision_step_def alert_step_def detect_anomalies_from_readings_def
  ppm_of_def truthy_id_def truthy_str_def

lemmas demo_defs = demo_chain_def rejecting_chain_def demo_client_def demo_integrator_def
  demo_env_def demo_world_def demo_report_def

lemma demo_crew_members:
  "get_crew_member_addresses (\<lambda>k. None) =
     [''0x0000000000000000000000000000000000000001'',
      ''0x0000000000000000000000000000000000000002'',
      ''0x0000000000000000000000000000000000000003'',
      ''0x0000000000000000000000000000000000000004'']"
  by code_simp

lemma map_severity_critical: "map_severity ''critical'' = 2"
  by code_simp





section \<open>Rejected submissions\<close>




lemma bnd_read_ledger:
  "bnd (read_ledger f) k w = (case f (ledger w) of Inl e \<Rightarrow> (Inl e, w) | Inr x \<Rightarrow> k x w)"
  by (simp add: bnd_def read_ledger_def split: sum.splits)





section \<open>Reasoning failure\<close>

lemma crew_formation_step_env:
  "crew_formation_step ch (env\<lparr>call_chatgpt_reasoner := f, dumps_indent2 := g\<rparr>) bi a m info =
   crew_formation_step ch env bi a m info"
  by (simp add: crew_formation_step_def cong: if_cong option.case_cong)

lemma decision_step_env:
  "decision_step ch (env\<lparr>call_chatgpt_reasoner := f, dumps_indent2 := g\<rparr>) bi cid report m info =
   decision_step ch env bi cid report m info"
  by (simp add: decision_step_def cong: if_cong option.case_cong)

lemma alert_step_env:
  "alert_step ch (env\<lparr>call_chatgpt_reasoner := f, dumps_indent2 := g\<rparr>) bi send_to text d info =
   alert_step ch env bi send_to text d info"
  by (simp add: alert_step_def cong: if_cong option.case_cong)

lemma fallback_decision_call:
  assumes "decision_call c cid
             (JDict [(''severity'', JStr ''critical''), (''explanation'', JStr msg)]) p
             (LogDecision cid' h t sev p' v sg notes)"
  shows "h = generate_decision_hash
               (JDict [(''severity'', JStr ''critical''), (''explanation'', JStr msg)]) \<and>
         sev = SEVERITY_CRITICAL \<and> notes = take 200 msg"
  using assms
  by (auto simp: decision_call_def dict_get_def severity_of_def notes_of_def
      map_severity_critical SEVERITY_CRITICAL_def)

text \<open>
  Every transaction a pass sends is a crew formation, one of the decision calls for the
  report of the reasoning step, or an execution mark.
\<close>

lemma run_sent_calls:
  assumes run: "run_detection_with_blockchain_validation ch env bi limit send_to w = (r, w')"
    and fresh: "sent w = []"
    and tx: "tx \<in> set (sent w')"
  shows "(\<exists>e m p. tx_call tx = FormCrew e m p) \<or>
         (\<exists>d. tx_call tx = MarkExecuted d) \<or>
         (\<exists>readings a anomalies c cid.
            get_recent_readings env limit = Inr readings \<and>
            detect_anomalies_from_readings readings (ABSOLUTE_EMERGENCY_PPM env) = a # anomalies \<and>
            decision_call c cid (snd (reasoning_step env (a # anomalies) readings))
              (fold max (map ppm_of anomalies) (ppm_of a)) (tx_call tx))"
  using run
proof (cases rule: run_cases)
  case early
  with fresh tx show ?thesis by simp
next
  case (governed readings a anomalies crew_id info1 w1)
  let ?report = "snd (reasoning_step env (a # anomalies) readings)"
  let ?text = "fst (reasoning_step env (a # anomalies) readings)"
  let ?max = "fold max (map ppm_of anomalies) (ppm_of a)"
  from crew_formation_step_result [OF governed(3)] fresh
  have crew: "\<forall>t \<in> set (sent w1). \<exists>e m p. tx_call t = FormCrew e m p"
    by auto
  have dec: "\<exists>readings a anomalies c cid.
            get_recent_readings env limit = Inr readings \<and>
            detect_anomalies_from_readings readings (ABSOLUTE_EMERGENCY_PPM env) = a # anomalies \<and>
            decision_call c cid (snd (reasoning_step env (a # anomalies) readings))
              (fold max (map ppm_of anomalies) (ppm_of a)) (tx_call tx)"
    if "\<forall>t \<in> set new. \<exists>c cid. decision_call c cid ?report ?max (tx_call t)" "tx \<in> set new"
    for new
    using that governed(1,2) by blast
  from governed(4) show ?thesis
  proof (cases rule: bnd_cases)
    case (raised e)
    from decision_step_result [OF raised(1)]
    obtain new where new: "sent w' = sent w1 @ new"
      "\<forall>t \<in> set new. \<exists>c cid. decision_call c cid ?report ?max (tx_call t)"
      by (elim exE conjE) (erule (1) that)
    from tx new(1) have "tx \<in> set (sent w1) \<or> tx \<in> set new" by simp
    then show ?thesis
    proof
      assume "tx \<in> set (sent w1)"
      with crew show ?thesis by auto
    next
      assume "tx \<in> set new"
      from dec [OF new(2) this] show ?thesis by simp
    qed
  next
    case (returned x w2)
    obtain decision_id info2 where x: "x = (decision_id, info2)" by (cases x)
    from decision_step_result [OF returned(1)]
    obtain new where new: "sent w2 = sent w1 @ new"
      "\<forall>t \<in> set new. \<exists>c cid. decision_call c cid ?report ?max (tx_call t)"
      by (elim exE conjE) (erule (1) that)
    from returned(2) have alert: "alert_step ch env bi send_to ?text decision_id info2 w2 = (r, w')"
      by (simp add: x)
    from alert_step_result [OF alert] tx
    have "tx \<in> set (sent w2) \<or> (\<exists>d. tx_call tx = MarkExecuted d)" by auto
    then show ?thesis
    proof
      assume "tx \<in> set (sent w2)"
      with new(1) have "tx \<in> set (sent w1) \<or> tx \<in> set new" by simp
      then show ?thesis
      proof
        assume "tx \<in> set (sent w1)"
        with crew show ?thesis by auto
      next
        assume "tx \<in> set new"
        from dec [OF new(2) this] show ?thesis by simp
      qed
    next
      assume "\<exists>d. tx_call tx = MarkExecuted d"
      then show ?thesis by simp
    qed
  qed
qed

lemma reasoning_failure_parts:
  assumes readings: "get_recent_readings env limit = Inr readings"
    and raised: "call_chatgpt_reasoner env
                   (detect_anomalies_from_readings readings (ABSOLUTE_EMERGENCY_PPM env)) readings
                 = Inl e"
    and fresh: "sent w = []"
  shows "run_detection_with_blockchain_validation ch env bi limit send_to w =
         run_detection_with_blockchain_validation ch
           (env\<lparr>call_chatgpt_reasoner :=
                   \<lambda>a r. Inr (JDict [(''severity'', JStr ''critical''),
                                      (''explanation'', JStr (''LLM reasoner failed: '' @ exn_msg e))]),
                 dumps_indent2 := \<lambda>j. ''LLM reasoner failed: '' @ exn_msg e\<rparr>)
           bi limit send_to w \<and>
         (\<forall>tx \<in> set (sent (snd (run_detection_with_blockchain_validation ch env bi limit send_to w))).
            \<forall>cid h t sev p v sg notes.
              tx_call tx = LogDecision cid h t sev p v sg notes \<longrightarrow>
              h = generate_decision_hash
                    (JDict [(''severity'', JStr ''critical''),
                            (''explanation'', JStr (''LLM reasoner failed: '' @ exn_msg e))]) \<and>
              sev = SEVERITY_CRITICAL \<and>
              notes = take 200 (''LLM reasoner failed: '' @ exn_msg e))"
proof (intro conjI ballI allI impI)
  let ?msg = "''LLM reasoner failed: '' @ exn_msg e"
  let ?fb = "JDict [(''severity'', JStr ''critical''), (''explanation'', JStr ?msg)]"
  have step: "reasoning_step env (a # anomalies) readings = (?msg, ?fb)"
    if "detect_anomalies_from_readings readings (ABSOLUTE_EMERGENCY_PPM env) = a # anomalies"
    for a anomalies
    using raised that by (simp add: reasoning_step_def Let_def)
  have step': "reasoning_step (env\<lparr>call_chatgpt_reasoner := \<lambda>a r. Inr ?fb,
                                     dumps_indent2 := \<lambda>j. ?msg\<rparr>) xs readings = (?msg, ?fb)"
    for xs
    by (simp add: reasoning_step_def)
  show "run_detection_with_blockchain_validation ch env bi limit send_to w =
        run_detection_with_blockchain_validation ch
          (env\<lparr>call_chatgpt_reasoner := \<lambda>a r. Inr ?fb, dumps_indent2 := \<lambda>j. ?msg\<rparr>)
          bi limit send_to w"
  proof (cases "detect_anomalies_from_readings readings (ABSOLUTE_EMERGENCY_PPM env)")
    case Nil
    then show ?thesis
      using readings
      by (simp add: run_detection_with_blockchain_validation_def Let_def bnd_def lift_def)
  next
    case (Cons a anomalies)
    then show ?thesis
      using readings step [OF Cons] step' [of "a # anomalies"]
      by (simp add: run_detection_with_blockchain_validation_def Let_def bnd_def lift_def
          crew_formation_step_env decision_step_env alert_step_env
          cong: prod.case_cong sum.case_cong)
  qed
next
  fix tx cid h t sev p v sg nt
  let ?msg = "''LLM reasoner failed: '' @ exn_msg e"
  let ?fb = "JDict [(''severity'', JStr ''critical''), (''explanation'', JStr ?msg)]"
  assume tx: "tx \<in> set (sent (snd (run_detection_with_blockchain_validation ch env bi limit
                                      send_to w)))"
    and call: "tx_call tx = LogDecision cid h t sev p v sg nt"
  have run: "run_detection_with_blockchain_validation ch env bi limit send_to w =
             (fst (run_detection_with_blockchain_validation ch env bi limit send_to w),
              snd (run_detection_with_blockchain_validation ch env bi limit send_to w))"
    by simp
  from run_sent_calls [OF run fresh tx] call
  obtain readings' a anomalies c cid' where d:
    "get_recent_readings env limit = Inr readings'"
    "detect_anomalies_from_readings readings' (ABSOLUTE_EMERGENCY_PPM env) = a # anomalies"
    "decision_call c cid' (snd (reasoning_step env (a # anomalies) readings'))
       (fold max (map ppm_of anomalies) (ppm_of a)) (tx_call tx)"
    by auto
  from d(1) readings have r: "readings' = readings" by simp
  from raised d(2) have "snd (reasoning_step env (a # anomalies) readings) = ?fb"
    by (simp add: reasoning_step_def Let_def r)
  with d(3) call have "decision_call c cid' ?fb (fold max (map ppm_of anomalies) (ppm_of a))
                         (LogDecision cid h t sev p v sg nt)"
    by (simp add: r)
  from fallback_decision_call [OF this]
  show "h = generate_decision_hash ?fb" "sev = SEVERITY_CRITICAL" "nt = take 200 ?msg"
    by simp_all
qed

lemma build_transaction_eq:
  "build_transaction ch c call gas w = (r, w') \<longleftrightarrow>
     w' = w \<and>
     r = (case get_transaction_count ch (ledger w) (address c) of
            Inl e \<Rightarrow> Inl e
          | Inr n \<Rightarrow>
              (case gas_price ch (ledger w) of
                 Inl e \<Rightarrow> Inl e
               | Inr g \<Rightarrow> Inr \<lparr>tx_call = call, tx_from = address c, tx_nonce = n,
                                tx_gas = gas, tx_gasPrice = g\<rparr>))"
  by (auto simp: build_transaction_def bnd_def read_ledger_def ret_def split: sum.splits)

lemma sign_decision_eq:
  "sign_decision ch c h w = (r, w') \<longleftrightarrow>
     w' = w \<and>
     r = (case getNonce ch (ledger w) (address c) of
            Inl e \<Rightarrow> Inl e
          | Inr n \<Rightarrow> Inr (sign_message (private_key c) (decision_message_hash h n)))"
  by (auto simp: sign_decision_def get_nonce_def bnd_def read_ledger_def ret_def
      split: sum.splits)

lemma log_decision_needs:
  assumes "log_decision ch c cid h t s p v g n w = (r, w')"
  shows "((\<exists>e. r = Inl e) \<and> sent w' = sent w) \<or>
         (\<exists>k gp. get_transaction_count ch (ledger w) (address c) = Inr k \<and>
            gas_price ch (ledger w) = Inr gp)"
  using assms
  by (auto simp: log_decision_def build_transaction_eq elim!: bnd_cases split: sum.splits)

text \<open>The block of \<open>validate_critical_decision\<close> sends something only after the nonce,
  the transaction count and the gas price were read.\<close>

lemma critical_block_needs:
  assumes "bnd (lift (dict_get report ''severity'' (JStr ''critical''))) (\<lambda>severity_str.
           bnd (lift (severity_of severity_str)) (\<lambda>severity.
           bnd (sign_decision ch c decision_hash) (\<lambda>signature.
           bnd (lift (dict_get report ''explanation'' (JStr []))) (\<lambda>explanation.
           bnd (lift (notes_of explanation)) (\<lambda>notes.
           bnd (log_decision ch c crew_id decision_hash DECISION_TYPE_ANOMALY_DETECTION severity
                  p [address c] [signature] notes) (\<lambda>(tx_hash, decision_id).
           bnd (request_consensus ch c crew_id decision_hash) (\<lambda>(consensus_tx, request_id).
           bnd (if address c \<in> set crew_members
                then bnd (cast_vote ch c request_id True) (\<lambda>vote_tx. ret ())
                else ret ()) (\<lambda>_.
           bnd (has_consensus_passed ch request_id) (\<lambda>consensus_passed.
           ret (consensus_passed, Some decision_id, Some tx_hash)))))))))) w = (r, w')"
    and "sent w' \<noteq> sent w"
  shows "\<exists>n k g. getNonce ch (ledger w) (address c) = Inr n \<and>
           get_transaction_count ch (ledger w) (address c) = Inr k \<and>
           gas_price ch (ledger w) = Inr g"
  using assms
  by (auto simp: sign_decision_eq split: sum.splits elim!: bnd_cases dest!: log_decision_needs)

lemma validate_critical_decision_needs:
  assumes "validate_critical_decision ch self crew_id report members ppm w = (r, w')"
    and "sent w' \<noteq> sent w"
  shows "enable_blockchain self \<and> isCritical ch (ledger w) (py_int ppm) = Inr True \<and>
         (\<exists>n k g. getNonce ch (ledger w) (address (the_client self)) = Inr n \<and>
            get_transaction_count ch (ledger w) (address (the_client self)) = Inr k \<and>
            gas_price ch (ledger w) = Inr g)"
proof (cases "enable_blockchain self")
  case False
  with assms show ?thesis by (simp add: validate_critical_decision_def)
next
  case True
  from assms(1) True have
    "bnd (is_critical ch (py_int ppm)) (\<lambda>critical.
        if \<not> critical then ret (True, None, None)
        else try_except
          (bnd (lift (dict_get report ''severity'' (JStr ''critical''))) (\<lambda>severity_str.
           bnd (lift (severity_of severity_str)) (\<lambda>severity.
           bnd (sign_decision ch (the_client self) (generate_decision_hash report)) (\<lambda>signature.
           bnd (lift (dict_get report ''explanation'' (JStr []))) (\<lambda>explanation.
           bnd (lift (notes_of explanation)) (\<lambda>notes.
           bnd (log_decision ch (the_client self) crew_id (generate_decision_hash report)
                  DECISION_TYPE_ANOMALY_DETECTION severity
                  (py_int ppm) [address (the_client self)] [signature] notes) (\<lambda>(tx_hash, decision_id).
           bnd (request_consensus ch (the_client self) crew_id (generate_decision_hash report))
               (\<lambda>(consensus_tx, request_id).
           bnd (if address (the_client self) \<in> set members
                then bnd (cast_vote ch (the_client self) request_id True) (\<lambda>vote_tx. ret ())
                else ret ()) (\<lambda>_.
           bnd (has_consensus_passed ch request_id) (\<lambda>consensus_passed.
           ret (consensus_passed, Some decision_id, Some tx_hash)))))))))))
          (\<lambda>e. ret (False, None, None))) w = (r, w')"
    unfolding validate_critical_decision_def Let_def by simp
  then show ?thesis
  proof (cases rule: bnd_cases)
    case (raised e)
    with assms(2) show ?thesis by (simp add: is_critical_def)
  next
    case (returned critical w1)
    then have w1: "w1 = w" and crit: "isCritical ch (ledger w) (py_int ppm) = Inr critical"
      by (simp_all add: is_critical_def)
    show ?thesis
    proof (cases critical)
      case False
      with returned assms(2) show ?thesis by (simp add: w1)
    next
      case c: True
      with returned(2) assms(2) True crit show ?thesis
        apply (simp add: w1)
        apply (erule try_except_cases)
         apply (drule critical_block_needs)
          apply simp
         apply simp
        apply (drule critical_block_needs)
         apply simp
        apply simp
        done
    qed
  qed
qed

lemma decision_step_needs:
  assumes "decision_step ch env bi crew_id report max_ppm info w = (r, w')"
    and "sent w' \<noteq> sent w"
  shows "decision_loggable ch env bi crew_id max_ppm w"
proof -
  have no: False if "w' = w" using that assms(2) by simp
  show ?thesis
  proof (cases bi)
    case None
    with assms(1) no show ?thesis by (simp add: decision_step_def)
  next
    case (Some self)
    show ?thesis
    proof (cases crew_id)
      case None
      with assms(1) Some no show ?thesis by (simp add: decision_step_def)
    next
      case cid: (Some cid)
      show ?thesis
      proof (cases "enable_blockchain self \<and> cid \<noteq> 0 \<and> max_ppm \<ge> ABSOLUTE_EMERGENCY_PPM env")
        case False
        with assms(1) Some cid no show ?thesis by (auto simp add: decision_step_def)
      next
        case True
        with assms(1) Some cid have
          "bnd (validate_critical_decision ch self cid report
                  (get_crew_member_addresses (getenv env)) max_ppm)
             (\<lambda>(consensus_passed, decision_id, tx_hash).
                if truthy_id decision_id
                then ret (decision_id,
                          info\<lparr>bi_decision_id := decision_id,
                               bi_consensus_passed := Some consensus_passed,
                               bi_transactions :=
                                 bi_transactions info @ [(''decision_log'', tx_hash)]\<rparr>)
                else ret (decision_id, info)) w = (r, w')"
          by (simp add: decision_step_def Let_def)
        then have "\<exists>r1. validate_critical_decision ch self cid report
                    (get_crew_member_addresses (getenv env)) max_ppm w = (r1, w')"
          by (cases rule: bnd_cases) (auto split: if_splits)
        then obtain r1 where "validate_critical_decision ch self cid report
                    (get_crew_member_addresses (getenv env)) max_ppm w = (r1, w')" ..
        from validate_critical_decision_needs [OF this assms(2)] True Some cid
        show ?thesis by (auto simp: decision_loggable_def)
      qed
    qed
  qed
qed

lemma log_decision_sends:
  assumes "get_transaction_count ch (ledger w) (address c) = Inr k"
    and "gas_price ch (ledger w) = Inr gp"
    and "log_decision ch c cid h t s p v g n w = (r, w')"
  shows "\<exists>tx. sent w' = sent w @ [tx] \<and> tx_call tx = LogDecision cid h t s p v g n"
  using assms
  by (auto simp: log_decision_def build_transaction_eq elim!: bnd_cases
      dest!: send_transaction_sent)

lemma critical_block_logs:
  assumes "dict_get report ''severity'' (JStr ''critical'') = Inr sv"
    and "severity_of sv = Inr sev"
    and "dict_get report ''explanation'' (JStr []) = Inr ex"
    and "notes_of ex = Inr nt"
    and "getNonce ch (ledger w) (address c) = Inr n"
    and "get_transaction_count ch (ledger w) (address c) = Inr k"
    and "gas_price ch (ledger w) = Inr gp"
    and "bnd (lift (dict_get report ''severity'' (JStr ''critical''))) (\<lambda>severity_str.
           bnd (lift (severity_of severity_str)) (\<lambda>severity.
           bnd (sign_decision ch c decision_hash) (\<lambda>signature.
           bnd (lift (dict_get report ''explanation'' (JStr []))) (\<lambda>explanation.
           bnd (lift (notes_of explanation)) (\<lambda>notes.
           bnd (log_decision ch c crew_id decision_hash DECISION_TYPE_ANOMALY_DETECTION severity
                  p [address c] [signature] notes) (\<lambda>(tx_hash, decision_id).
           bnd (request_consensus ch c crew_id decision_hash) (\<lambda>(consensus_tx, request_id).
           bnd (if address c \<in> set crew_members
                then bnd (cast_vote ch c request_id True) (\<lambda>vote_tx. ret ())
                else ret ()) (\<lambda>_.
           bnd (has_consensus_passed ch request_id) (\<lambda>consensus_passed.
           ret (consensus_passed, Some decision_id, Some tx_hash)))))))))) w = (r, w')"
  shows "\<exists>t rest. sent w' = sent w @ t # rest \<and> is_log_decision (tx_call t)"
  using assms(8) assms(1-7)
  by (auto simp: sign_decision_eq sends_at_most_def is_log_decision_def has_consensus_passed_def
      split: if_splits elim!: bnd_cases
      dest!: log_decision_sends request_consensus_sent cast_vote_sent)

lemma validate_critical_decision_logs_fallback:
  assumes "enable_blockchain self"
    and "isCritical ch (ledger w) (py_int ppm) = Inr True"
    and "getNonce ch (ledger w) (address (the_client self)) = Inr n"
    and "get_transaction_count ch (ledger w) (address (the_client self)) = Inr k"
    and "gas_price ch (ledger w) = Inr gp"
    and "validate_critical_decision ch self crew_id
           (JDict [(''severity'', JStr ''critical''), (''explanation'', JStr msg)])
           members ppm w = (r, w')"
  shows "\<exists>t rest. sent w' = sent w @ t # rest \<and> is_log_decision (tx_call t)"
proof -
  let ?fb = "JDict [(''severity'', JStr ''critical''), (''explanation'', JStr msg)]"
  have sv: "dict_get ?fb ''severity'' (JStr ''critical'') = Inr (JStr ''critical'')"
    by (simp add: dict_get_def)
  have sev: "severity_of (JStr ''critical'') = Inr (map_severity ''critical'')"
    by (simp add: severity_of_def)
  have ex: "dict_get ?fb ''explanation'' (JStr []) = Inr (JStr msg)"
    by (simp add: dict_get_def)
  have nt: "notes_of (JStr msg) = Inr (take 200 msg)"
    by (simp add: notes_of_def)
  from assms(6) assms(1,2) show ?thesis
    unfolding validate_critical_decision_def Let_def
    apply (simp add: is_critical_def bnd_read_ledger)
    apply (erule try_except_cases)
     apply (drule critical_block_logs [OF sv sev ex nt assms(3) assms(4) assms(5)])
     apply simp
    apply (drule critical_block_logs [OF sv sev ex nt assms(3) assms(4) assms(5)])
    apply simp
    done
qed

lemma decision_step_logs_fallback:
  assumes "decision_loggable ch env bi crew_id max_ppm w"
    and "decision_step ch env bi crew_id
           (JDict [(''severity'', JStr ''critical''), (''explanation'', JStr msg)])
           max_ppm info w = (r, w')"
  shows "\<exists>t \<in> set (sent w'). is_log_decision (tx_call t)"
proof -
  from assms(1) obtain self cid n k g where l:
    "bi = Some self" "crew_id = Some cid" "enable_blockchain self" "cid \<noteq> 0"
    "max_ppm \<ge> ABSOLUTE_EMERGENCY_PPM env"
    "isCritical ch (ledger w) (py_int max_ppm) = Inr True"
    "getNonce ch (ledger w) (address (the_client self)) = Inr n"
    "get_transaction_count ch (ledger w) (address (the_client self)) = Inr k"
    "gas_price ch (ledger w) = Inr g"
    unfolding decision_loggable_def by blast
  from assms(2) l(1-5) have
    "bnd (validate_critical_decision ch self cid
            (JDict [(''severity'', JStr ''critical''), (''explanation'', JStr msg)])
            (get_crew_member_addresses (getenv env)) max_ppm)
       (\<lambda>(consensus_passed, decision_id, tx_hash).
          if truthy_id decision_id
          then ret (decision_id,
                    info\<lparr>bi_decision_id := decision_id,
                         bi_consensus_passed := Some consensus_passed,
                         bi_transactions :=
                           bi_transactions info @ [(''decision_log'', tx_hash)]\<rparr>)
          else ret (decision_id, info)) w = (r, w')"
    by (simp add: decision_step_def Let_def)
  then have "\<exists>r1. validate_critical_decision ch self cid
               (JDict [(''severity'', JStr ''critical''), (''explanation'', JStr msg)])
               (get_crew_member_addresses (getenv env)) max_ppm w = (r1, w')"
    by (cases rule: bnd_cases) (auto split: if_splits)
  then obtain r1 where "validate_critical_decision ch self cid
               (JDict [(''severity'', JStr ''critical''), (''explanation'', JStr msg)])
               (get_crew_member_addresses (getenv env)) max_ppm w = (r1, w')" ..
  from validate_critical_decision_logs_fallback [OF l(3) l(6) l(7) l(8) l(9) this]
  show ?thesis by auto
qed

lemma decision_loggable_env:
  "decision_loggable ch (env\<lparr>call_chatgpt_reasoner := f, dumps_indent2 := g\<rparr>) bi crew_id m w =
   decision_loggable ch env bi crew_id m w"
  by (simp add: decision_loggable_def)

lemma run_governed:
  assumes "get_recent_readings env limit = Inr readings"
    and "detect_anomalies_from_readings readings (ABSOLUTE_EMERGENCY_PPM env) = a # anomalies"
  shows "run_detection_with_blockchain_validation ch env bi limit send_to w =
         bnd (crew_formation_step ch env bi a (fold max (map ppm_of anomalies) (ppm_of a))
                \<lparr>bi_crew_id = None, bi_decision_id = None, bi_consensus_passed = None,
                 bi_transactions = []\<rparr>)
           (\<lambda>(crew_id, info).
              bnd (decision_step ch env bi crew_id
                     (snd (reasoning_step env (a # anomalies) readings))
                     (fold max (map ppm_of anomalies) (ppm_of a)) info)
                (\<lambda>(decision_id, info).
                   alert_step ch env bi send_to (fst (reasoning_step env (a # anomalies) readings))
                     decision_id info)) w"
proof -
  have "readings \<noteq> []" using assms(2) by (auto simp: detect_anomalies_from_readings_def)
  then show ?thesis
    using assms
    by (simp add: run_detection_with_blockchain_validation_def Let_def bnd_def lift_def
        split_beta cong: prod.case_cong sum.case_cong)
qed

text \<open>
  If a pass sends a decision log, the ledger was ready for one after the crew step; and
  then a pass whose report is the fallback payload sends one too.
\<close>

lemma run_needs_loggable:
  assumes run: "run_detection_with_blockchain_validation ch env bi limit send_to w = (r, w')"
    and fresh: "sent w = []"
    and tx: "tx \<in> set (sent w')" "is_log_decision (tx_call tx)"
  shows "\<exists>readings a anomalies crew_id info1 w1.
           get_recent_readings env limit = Inr readings \<and>
           detect_anomalies_from_readings readings (ABSOLUTE_EMERGENCY_PPM env) = a # anomalies \<and>
           crew_formation_step ch env bi a (fold max (map ppm_of anomalies) (ppm_of a))
             \<lparr>bi_crew_id = None, bi_decision_id = None, bi_consensus_passed = None,
              bi_transactions = []\<rparr> w = (Inr (crew_id, info1), w1) \<and>
           decision_loggable ch env bi crew_id (fold max (map ppm_of anomalies) (ppm_of a)) w1"
  using run
proof (cases rule: run_cases)
  case early
  with fresh tx show ?thesis by simp
next
  case (governed readings a anomalies crew_id info1 w1)
  let ?report = "snd (reasoning_step env (a # anomalies) readings)"
  let ?text = "fst (reasoning_step env (a # anomalies) readings)"
  let ?max = "fold max (map ppm_of anomalies) (ppm_of a)"
  from crew_formation_step_result [OF governed(3)] fresh
  have crew: "\<forall>t \<in> set (sent w1). \<exists>e m p. tx_call t = FormCrew e m p"
    by auto
  with tx(2) have old: "tx \<notin> set (sent w1)" by (auto simp: is_log_decision_def)
  have "decision_loggable ch env bi crew_id ?max w1"
    using governed(4)
  proof (cases rule: bnd_cases)
    case (raised e)
    from tx(1) old have "sent w' \<noteq> sent w1" by auto
    from decision_step_needs [OF raised(1) this] show ?thesis .
  next
    case (returned x w2)
    obtain decision_id info2 where x: "x = (decision_id, info2)" by (cases x)
    from returned(2) have alert: "alert_step ch env bi send_to ?text decision_id info2 w2 = (r, w')"
      by (simp add: x)
    from alert_step_result [OF alert] tx
    have "tx \<in> set (sent w2)" by (auto simp: is_log_decision_def)
    with old have "sent w2 \<noteq> sent w1" by auto
    from decision_step_needs [OF returned(1) this] show ?thesis .
  qed
  with governed(1-3) show ?thesis by blast
qed

lemma fallback_not_dropped:
  assumes readings: "get_recent_readings env limit = Inr readings"
    and raised: "call_chatgpt_reasoner env
                   (detect_anomalies_from_readings readings (ABSOLUTE_EMERGENCY_PPM env)) readings
                 = Inl e"
    and fresh: "sent w = []"
    and other: "tx \<in> set (sent (snd (run_detection_with_blockchain_validation ch
                  (env\<lparr>call_chatgpt_reasoner := f, dumps_indent2 := g\<rparr>) bi limit send_to w)))"
      "is_log_decision (tx_call tx)"
  shows "\<exists>t \<in> set (sent (snd (run_detection_with_blockchain_validation ch env bi limit send_to w))).
           is_log_decision (tx_call t)"
proof -
  let ?env2 = "env\<lparr>call_chatgpt_reasoner := f, dumps_indent2 := g\<rparr>"
  let ?msg = "''LLM reasoner failed: '' @ exn_msg e"
  let ?fb = "JDict [(''severity'', JStr ''critical''), (''explanation'', JStr ?msg)]"
  have run2: "run_detection_with_blockchain_validation ch ?env2 bi limit send_to w =
      (fst (run_detection_with_blockchain_validation ch ?env2 bi limit send_to w),
       snd (run_detection_with_blockchain_validation ch ?env2 bi limit send_to w))"
    by simp
  from run_needs_loggable [OF run2 fresh other]
  obtain readings' a anomalies crew_id info1 w1 where g:
    "get_recent_readings ?env2 limit = Inr readings'"
    "detect_anomalies_from_readings readings' (ABSOLUTE_EMERGENCY_PPM ?env2) = a # anomalies"
    "crew_formation_step ch ?env2 bi a (fold max (map ppm_of anomalies) (ppm_of a))
       \<lparr>bi_crew_id = None, bi_decision_id = None, bi_consensus_passed = None,
        bi_transactions = []\<rparr> w = (Inr (crew_id, info1), w1)"
    "decision_loggable ch ?env2 bi crew_id (fold max (map ppm_of anomalies) (ppm_of a)) w1"
    by blast
  let ?max = "fold max (map ppm_of anomalies) (ppm_of a)"
  from g(1) readings have r: "readings' = readings" by simp
  from g(2) have anomalies:
    "detect_anomalies_from_readings readings (ABSOLUTE_EMERGENCY_PPM env) = a # anomalies"
    by (simp add: r)
  from g(3) have crew: "crew_formation_step ch env bi a ?max
       \<lparr>bi_crew_id = None, bi_decision_id = None, bi_consensus_passed = None,
        bi_transactions = []\<rparr> w = (Inr (crew_id, info1), w1)"
    by (simp add: crew_formation_step_env)
  from g(4) have loggable: "decision_loggable ch env bi crew_id ?max w1"
    by (simp add: decision_loggable_env)
  from raised anomalies have step: "reasoning_step env (a # anomalies) readings = (?msg, ?fb)"
    by (simp add: reasoning_step_def Let_def)
  obtain rd wd where dec: "decision_step ch env bi crew_id ?fb ?max info1 w1 = (rd, wd)"
    by (cases "decision_step ch env bi crew_id ?fb ?max info1 w1")
  from decision_step_logs_fallback [OF loggable dec]
  obtain t where t: "t \<in> set (sent wd)" "is_log_decision (tx_call t)" by blast
  have run: "run_detection_with_blockchain_validation ch env bi limit send_to w =
        bnd (decision_step ch env bi crew_id ?fb ?max info1)
          (\<lambda>(decision_id, info). alert_step ch env bi send_to ?msg decision_id info) w1"
    by (simp add: run_governed [OF readings anomalies] bnd_def crew step)
  have "t \<in> set (sent (snd (run_detection_with_blockchain_validation ch env bi limit send_to w)))"
  proof (cases rd)
    case (Inl err)
    with dec t(1) show ?thesis by (simp add: run bnd_def)
  next
    case (Inr x)
    obtain decision_id info2 where x: "x = (decision_id, info2)" by (cases x)
    obtain ra wa where alert: "alert_step ch env bi send_to ?msg decision_id info2 wd = (ra, wa)"
      by (cases "alert_step ch env bi send_to ?msg decision_id info2 wd")
    from alert_step_result [OF alert] t(1) have "t \<in> set (sent wa)" by auto
    with dec Inr x alert show ?thesis by (simp add: run bnd_def)
  qed
  with t(2) show ?thesis by blast
qed

text \<open>
  C8. Reasoning failure is non-fatal and fail-safe-high. When the reasoner raises in a
  pass with anomalies, the pass goes on exactly as the pass in which the reasoner had
  answered the fallback payload \<open>{severity: critical, explanation: <failure message>}\<close>
  (and that payload rendered as the failure message); every decision the pass logs
  carries the hash of this payload, the severity Critical and the failure message (cut to
  200 characters) as its notes; and whenever the pass would have logged a decision for
  some answer of the reasoner, it logs one for the failure too. So no decision is dropped
  from the ledger because the reasoner failed.
\<close>

theorem reasoning_failure_logs_fallback:
  assumes readings: "get_recent_readings env limit = Inr readings"
    and raised: "call_chatgpt_reasoner env
                   (detect_anomalies_from_readings readings (ABSOLUTE_EMERGENCY_PPM env)) readings
                 = Inl e"
    and fresh: "sent w = []"
  shows "run_detection_with_blockchain_validation ch env bi limit send_to w =
         run_detection_with_blockchain_validation ch
           (env\<lparr>call_chatgpt_reasoner :=
                   \<lambda>a r. Inr (JDict [(''severity'', JStr ''critical''),
                                      (''explanation'', JStr (''LLM reasoner failed: '' @ exn_msg e))]),
                 dumps_indent2 := \<lambda>j. ''LLM reasoner failed: '' @ exn_msg e\<rparr>)
           bi limit send_to w \<and>
         (\<forall>tx \<in> set (sent (snd (run_detection_with_blockchain_validation ch env bi limit send_to w))).
            \<forall>cid h t sev p v sg notes.
              tx_call tx = LogDecision cid h t sev p v sg notes \<longrightarrow>
              h = generate_decision_hash
                    (JDict [(''severity'', JStr ''critical''),
                            (''explanation'', JStr (''LLM reasoner failed: '' @ exn_msg e))]) \<and>
              sev = SEVERITY_CRITICAL \<and>
              notes = take 200 (''LLM reasoner failed: '' @ exn_msg e)) \<and>
         (\<forall>f g.
            (\<exists>tx \<in> set (sent (snd (run_detection_with_blockchain_validation ch
                                       (env\<lparr>call_chatgpt_reasoner := f, dumps_indent2 := g\<rparr>)
                                       bi limit send_to w))).
               is_log_decision (tx_call tx)) \<longrightarrow>
            (\<exists>tx \<in> set (sent (snd (run_detection_with_blockchain_validation ch env bi limit
                                       send_to w))).
               is_log_decision (tx_call tx)))"
proof (intro conjI)
  note parts = reasoning_failure_parts [OF readings raised fresh, of ch bi send_to]
  show "run_detection_with_blockchain_validation ch env bi limit send_to w =
         run_detection_with_blockchain_validation ch
           (env\<lparr>call_chatgpt_reasoner :=
                   \<lambda>a r. Inr (JDict [(''severity'', JStr ''critical''),
                                      (''explanation'', JStr (''LLM reasoner failed: '' @ exn_msg e))]),
                 dumps_indent2 := \<lambda>j. ''LLM reasoner failed: '' @ exn_msg e\<rparr>)
           bi limit send_to w"
    by (rule parts [THEN conjunct1])
  show "\<forall>tx \<in> set (sent (snd (run_detection_with_blockchain_validation ch env bi limit send_to w))).
            \<forall>cid h t sev p v sg notes.
              tx_call tx = LogDecision cid h t sev p v sg notes \<longrightarrow>
              h = generate_decision_hash
                    (JDict [(''severity'', JStr ''critical''),
                            (''explanation'', JStr (''LLM reasoner failed: '' @ exn_msg e))]) \<and>
              sev = SEVERITY_CRITICAL \<and>
              notes = take 200 (''LLM reasoner failed: '' @ exn_msg e)"
    by (rule parts [THEN conjunct2])
  show "\<forall>f g.
            (\<exists>tx \<in> set (sent (snd (run_detection_with_blockchain_validation ch
                                       (env\<lparr>call_chatgpt_reasoner := f, dumps_indent2 := g\<rparr>)
                                       bi limit send_to w))).
               is_log_decision (tx_call tx)) \<longrightarrow>
            (\<exists>tx \<in> set (sent (snd (run_detection_with_blockchain_validation ch env bi limit
                                       send_to w))).
               is_log_decision (tx_call tx))"
    by (intro allI impI, elim bexE) (rule fallback_not_dropped [OF readings raised fresh])
qed

text \<open>
  The pass on the example ledger when the reasoner times out: the decision is logged with
  the fallback payload.
\<close>

lemma demo_pass_reasoner_failed:
  "map tx_call
     (sent (snd (run_detection_with_blockchain_validation (demo_chain True)
        (demo_env 6000 (Inl (Exn ''TimeoutError'' ''timed out''))) (Some demo_integrator) 50
        (Some [''ops@example.org'']) demo_world))) =
   [FormCrew
      (generate_event_id ''2025-01-01T00:00:00+00:00''
         \<lparr>e_timestamp = Some ''2025-01-01T00:00:00+00:00'', e_node_id = Some ''n1'',
          e_methane_ppm = Some 6000\<rparr>)
      (get_crew_member_addresses (\<lambda>k. None)) 6000,
    LogDecision 4
      (generate_decision_hash
         (JDict [(''severity'', JStr ''critical''),
                 (''explanation'', JStr ''LLM reasoner failed: timed out'')]))
      DECISION_TYPE_ANOMALY_DETECTION SEVERITY_CRITICAL 6000 [address demo_client]
      [sign_message ''key''
         (decision_message_hash
            (generate_decision_hash
               (JDict [(''severity'', JStr ''critical''),
                       (''explanation'', JStr ''LLM reasoner failed: timed out'')])) 1)]
      ''LLM reasoner failed: timed out'',
    RequestConsensus 4
      (generate_decision_hash
         (JDict [(''severity'', JStr ''critical''),
                 (''explanation'', JStr ''LLM reasoner failed: timed out'')])),
    CastVote 11 True,
    MarkExecuted 9]"
  by (simp add: coordinator_defs integrator_defs client_defs io_defs demo_defs
      demo_crew_members map_severity_critical SEVERITY_CRITICAL_def Let_def)

theorem reasoning_failure_logs_fallback_witness:
  "run_detection_with_blockchain_validation (demo_chain True)
     (demo_env 6000 (Inl (Exn ''TimeoutError'' ''timed out''))) (Some demo_integrator) 50
     (Some [''ops@example.org'']) demo_world =
   run_detection_with_blockchain_validation (demo_chain True)
     ((demo_env 6000 (Inl (Exn ''TimeoutError'' ''timed out'')))
        \<lparr>call_chatgpt_reasoner :=
           \<lambda>a r. Inr (JDict [(''severity'', JStr ''critical''),
                              (''explanation'', JStr ''LLM reasoner failed: timed out'')]),
         dumps_indent2 := \<lambda>j. ''LLM reasoner failed: timed out''\<rparr>)
     (Some demo_integrator) 50 (Some [''ops@example.org'']) demo_world \<and>
   map tx_call
     (sent (snd (run_detection_with_blockchain_validation (demo_chain True)
        (demo_env 6000 (Inl (Exn ''TimeoutError'' ''timed out''))) (Some demo_integrator) 50
        (Some [''ops@example.org'']) demo_world))) ! 1 =
   LogDecision 4
      (generate_decision_hash
         (JDict [(''severity'', JStr ''critical''),
                 (''explanation'', JStr ''LLM reasoner failed: timed out'')]))
      DECISION_TYPE_ANOMALY_DETECTION SEVERITY_CRITICAL 6000 [address demo_client]
      [sign_message ''key''
         (decision_message_hash
            (generate_decision_hash
               (JDict [(''severity'', JStr ''critical''),
                       (''explanation'', JStr ''LLM reasoner failed: timed out'')])) 1)]
      ''LLM reasoner failed: timed out''"
proof -
  let ?env = "demo_env 6000 (Inl (Exn ''TimeoutError'' ''timed out''))"
  let ?readings = "[\<lparr>r_methane_ppm = Some 6000, r_node_id = Some ''n1''\<rparr>]"
  have readings: "get_recent_readings ?env 50 = Inr ?readings"
    by (simp add: demo_env_def)
  have raised: "call_chatgpt_reasoner ?env
                  (detect_anomalies_from_readings ?readings (ABSOLUTE_EMERGENCY_PPM ?env))
                  ?readings = Inl (Exn ''TimeoutError'' ''timed out'')"
    by (simp add: demo_env_def)
  have fresh: "sent demo_world = []" by (simp add: demo_world_def)
  have same: "run_detection_with_blockchain_validation (demo_chain True) ?env
     (Some demo_integrator) 50 (Some [''ops@example.org'']) demo_world =
   run_detection_with_blockchain_validation (demo_chain True)
     (?env
        \<lparr>call_chatgpt_reasoner :=
           \<lambda>a r. Inr (JDict [(''severity'', JStr ''critical''),
                              (''explanation'', JStr ''LLM reasoner failed: timed out'')]),
         dumps_indent2 := \<lambda>j. ''LLM reasoner failed: timed out''\<rparr>)
     (Some demo_integrator) 50 (Some [''ops@example.org'']) demo_world"
    using reasoning_failure_logs_fallback [OF readings raised fresh, THEN conjunct1,
      of "demo_chain True" "Some demo_integrator" "Some [''ops@example.org'']"]
    by simp
  have second: "map tx_call
     (sent (snd (run_detection_with_blockchain_validation (demo_chain True) ?env
        (Some demo_integrator) 50 (Some [''ops@example.org'']) demo_world))) ! 1 =
   LogDecision 4
      (generate_decision_hash
         (JDict [(''severity'', JStr ''critical''),
                 (''explanation'', JStr ''LLM reasoner failed: timed out'')]))
      DECISION_TYPE_ANOMALY_DETECTION SEVERITY_CRITICAL 6000 [address demo_client]
      [sign_message ''key''
         (decision_message_hash
            (generate_decision_hash
               (JDict [(''severity'', JStr ''critical''),
                       (''explanation'', JStr ''LLM reasoner failed: timed out'')])) 1)]
      ''LLM reasoner failed: timed out''"
    by (simp add: demo_pass_reasoner_failed)
  show ?thesis by (rule conjI [OF same second])
qed

end
